theory Spec2Isabelle
  imports Main
begin

section \<open>TCP echo demo: the server (server.c) and the client (client.c)\<close>

text \<open>
  Both programs are straight-line sequences of socket calls with one loop each. The
  embedding makes the operating system explicit: every value a system call returns is
  a field of an environment record, every call and every line printed is an event
  appended to a trace, and a blocking call that never returns is the exhaustion of the
  list of outcomes the environment supplies (the loop functions then stop with
  \<open>BlockedInRecv\<close> or \<open>Stalled\<close> and \<open>main\<close> yields no exit code).

  Bytes are \<open>char\<close> (8 bits), as the C \<open>char buffer[]\<close>. The C \<open>int\<close> variables are
  modelled as \<open>int\<close>: the only one that grows is the message counter, by one per
  completed read, and signed overflow is undefined in C.

  Outside the model: the \<open>errno\<close> text that \<open>perror\<close> appends, the default
  disposition of signals the programs do not handle (such as \<open>SIGPIPE\<close>), and the
  re-entrancy of \<open>printf\<close> inside the signal handler (the handler is run atomically at
  the points the environment names).
\<close>

subsection \<open>Constants of the two files\<close>

definition BUFFER_SIZE :: int where
  "BUFFER_SIZE = 1024"

definition MAX_CONNECTIONS :: int where
  "MAX_CONNECTIONS = 5"

definition NUM_MESSAGES :: int where
  "NUM_MESSAGES = 5"

definition SIGINT :: int where
  "SIGINT = 2"

definition SIGTERM :: int where
  "SIGTERM = 15"

definition NUL :: char where
  "NUL = CHR 0x00"

definition NL :: string where
  "NL = [CHR 0x0A]"

subsection \<open>The C library functions the programs call\<close>

text \<open>\<open>%d\<close> of \<open>printf\<close>: decimal digits, a minus sign for negative values.\<close>

fun show_nat :: "nat \<Rightarrow> string" where
  "show_nat n =
     (if n < 10 then [''0123456789'' ! n]
      else show_nat (n div 10) @ [''0123456789'' ! (n mod 10)])"

declare show_nat.simps [simp del]

definition show_int :: "int \<Rightarrow> string" where
  "show_int k = (if k < 0 then ''-'' @ show_nat (nat (- k)) else show_nat (nat k))"

text \<open>\<open>%s\<close> of \<open>printf\<close> on a \<open>char\<close> array: the bytes before the first NUL.\<close>

definition c_string :: "char list \<Rightarrow> string" where
  "c_string buf = takeWhile (\<lambda>c. c \<noteq> NUL) buf"

text \<open>
  \<open>atoi\<close>: optional white space, an optional sign, then decimal digits up to the first
  other character; 0 when there is no digit. (C leaves a value outside the range of
  \<open>int\<close> undefined; the model keeps the number.)
\<close>

definition is_space :: "char \<Rightarrow> bool" where
  "is_space c = (c \<in> set [CHR '' '', CHR 0x09, CHR 0x0A, CHR 0x0B, CHR 0x0C, CHR 0x0D])"

definition is_digit :: "char \<Rightarrow> bool" where
  "is_digit c = (48 \<le> (of_char c :: nat) \<and> (of_char c :: nat) \<le> 57)"

fun atoi_digits :: "int \<Rightarrow> string \<Rightarrow> int" where
  "atoi_digits acc [] = acc"
| "atoi_digits acc (c # cs) =
     (if is_digit c then atoi_digits (acc * 10 + (int (of_char c) - 48)) cs else acc)"

definition atoi :: "string \<Rightarrow> int" where
  "atoi s =
     (case dropWhile is_space s of
        [] \<Rightarrow> 0
      | c # cs \<Rightarrow>
          if c = CHR ''-'' then - atoi_digits 0 cs
          else if c = CHR ''+'' then atoi_digits 0 cs
          else atoi_digits 0 (c # cs))"

text \<open>\<open>htons\<close> takes a 16-bit value: the \<open>int\<close> port is truncated to 16 bits.\<close>

definition htons :: "int \<Rightarrow> int" where
  "htons p = p mod 65536"

text \<open>\<open>memset(buffer, 0, BUFFER_SIZE)\<close>: every byte of the array becomes NUL.\<close>

definition memset_zero :: "int \<Rightarrow> char list" where
  "memset_zero n = replicate (nat n) NUL"

text \<open>
  What a \<open>recv\<close> on a stream socket can do: deliver bytes the peer sent, report that the
  peer closed the connection (return 0), or fail (return -1). \<open>recv_call cap r\<close> is the
  pair of the return value and the bytes stored: at most \<open>cap\<close> bytes are taken from what
  is offered (what is offered beyond \<open>cap\<close> stays with the kernel, which may offer it again
  at a later call). An offer of no bytes returns 0, which the caller cannot tell from a
  close.
\<close>

datatype recv_outcome = RecvBytes "char list" | RecvClosed | RecvError

fun recv_call :: "int \<Rightarrow> recv_outcome \<Rightarrow> int \<times> char list" where
  "recv_call cap (RecvBytes bs) = (int (length (take (nat cap) bs)), take (nat cap) bs)"
| "recv_call cap RecvClosed = (0, [])"
| "recv_call cap RecvError = (- 1, [])"

text \<open>The stored bytes overwrite the front of the array; the rest of it stays.\<close>

definition store :: "char list \<Rightarrow> char list \<Rightarrow> char list" where
  "store d buf = d @ drop (length d) buf"

subsection \<open>Events\<close>

datatype event =
    Stdout string
  | Stderr string
  | Perror string
  | CallSignal int
  | CallGethostbyname string
  | CallSocket
  | CallSetsockopt int
  | CallBind int int
  | CallListen int int
  | CallAccept int
  | CallConnect int int
  | CallRecv int int int "char list"
  | CallSend int "char list" int
  | CallSleep int
  | CallClose int

text \<open>
  \<open>CallRecv fd cap rv d\<close>: \<open>recv(fd, buffer, cap, 0)\<close> returned \<open>rv\<close> and stored \<open>d\<close>.
  \<open>CallSend fd p r\<close>: \<open>send(fd, p, length p, 0)\<close> returned \<open>r\<close>.
  \<open>CallBind fd p\<close> and \<open>CallConnect fd p\<close> carry the port as \<open>htons\<close> received it.
\<close>

fun sends_of :: "event list \<Rightarrow> char list list" where
  "sends_of [] = []"
| "sends_of (CallSend fd p r # t) = p # sends_of t"
| "sends_of (e # t) = sends_of t"

fun recvs_of :: "event list \<Rightarrow> (int \<times> char list) list" where
  "recvs_of [] = []"
| "recvs_of (CallRecv fd cap rv d # t) = (rv, d) # recvs_of t"
| "recvs_of (e # t) = recvs_of t"

fun closes_of :: "event list \<Rightarrow> int list" where
  "closes_of [] = []"
| "closes_of (CallClose fd # t) = fd # closes_of t"
| "closes_of (e # t) = closes_of t"

definition arg0 :: "string list \<Rightarrow> string" where
  "arg0 argv = (case argv of [] \<Rightarrow> ''(null)'' | a # _ \<Rightarrow> a)"

subsection \<open>server.c\<close>

text \<open>
  The state of the server while it runs: the global \<open>running\<close>, the locals of \<open>main\<close>
  that the loop changes, and the trace so far.
\<close>

record server_state =
  running :: int
  buffer :: "char list"
  bytes_received :: int
  message_count :: int
  out :: "event list"

definition emit :: "event list \<Rightarrow> server_state \<Rightarrow> server_state" where
  "emit es s = s\<lparr>out := out s @ es\<rparr>"

definition signal_handler :: "int \<Rightarrow> server_state \<Rightarrow> server_state" where
  "signal_handler signum s =
     (emit [Stdout (NL @ ''Received signal '' @ show_int signum @ '', shutting down...'' @ NL)] s)
       \<lparr>running := 0\<rparr>"

text \<open>The handler runs once for each signal delivered, in the order of delivery.\<close>

fun deliver :: "int list \<Rightarrow> server_state \<Rightarrow> server_state" where
  "deliver [] s = s"
| "deliver (signum # sigs) s = deliver sigs (signal_handler signum s)"

text \<open>
  What the environment does during one iteration of the loop: the signals delivered
  after the loop condition was tested and before \<open>recv\<close> returns, what \<open>recv\<close> does, what
  \<open>send\<close> returns (read only if \<open>send\<close> is called), and the signals delivered after
  \<open>recv\<close> returned and before the loop condition is tested again.
\<close>

record iter_env =
  sig_in_recv :: "int list"
  recv_out :: recv_outcome
  send_r :: int
  sig_after :: "int list"

datatype loop_exit = FlagCleared | PeerClosed | RecvFailed | SendFailed | BlockedInRecv

text \<open>
  One execution of the loop body (lines 104 to 124). \<open>Some x\<close>: the body left the loop
  by \<open>break\<close> for the reason \<open>x\<close>; \<open>None\<close>: the body ran to its end.
\<close>

definition server_iter :: "int \<Rightarrow> server_state \<Rightarrow> iter_env \<Rightarrow> server_state \<times> loop_exit option" where
  "server_iter client_fd s e =
     (let s1 = deliver (sig_in_recv e) (s\<lparr>buffer := memset_zero BUFFER_SIZE\<rparr>);
          (rv, d) = recv_call (BUFFER_SIZE - 1) (recv_out e);
          s2 = emit [CallRecv client_fd (BUFFER_SIZE - 1) rv d]
                 (s1\<lparr>buffer := store d (buffer s1), bytes_received := rv\<rparr>)
      in if bytes_received s2 \<le> 0 then
           (if bytes_received s2 = 0
            then (emit [Stdout (''Client disconnected'' @ NL)] s2, Some PeerClosed)
            else (emit [Perror ''ERROR: Receive failed''] s2, Some RecvFailed))
         else
           let s3 = s2\<lparr>message_count := message_count s2 + 1\<rparr>;
               s4 = emit [Stdout (''[MSG '' @ show_int (message_count s3) @ ''] Received ''
                                  @ show_int (bytes_received s3) @ '' bytes: ''
                                  @ c_string (buffer s3) @ NL)] s3;
               s5 = emit [CallSend client_fd (take (nat (bytes_received s4)) (buffer s4)) (send_r e)] s4
           in if send_r e < 0 then (emit [Perror ''ERROR: Send failed''] s5, Some SendFailed)
              else (deliver (sig_after e)
                      (emit [Stdout (''[MSG '' @ show_int (message_count s5)
                                     @ ''] Echoed back to client'' @ NL)] s5),
                    None))"

text \<open>
  \<open>while (running) { ... }\<close>. When the environment has no further outcome the server
  stays blocked in \<open>recv\<close>.
\<close>

fun echo_loop :: "int \<Rightarrow> server_state \<Rightarrow> iter_env list \<Rightarrow> server_state \<times> loop_exit" where
  "echo_loop client_fd s [] =
     (if running s \<noteq> 0 then (s, BlockedInRecv) else (s, FlagCleared))"
| "echo_loop client_fd s (e # es) =
     (if running s \<noteq> 0 then
        (case server_iter client_fd s e of
           (s', Some x) \<Rightarrow> (s', x)
         | (s', None) \<Rightarrow> echo_loop client_fd s' es)
      else (s, FlagCleared))"

text \<open>Lines 127 to 136: the statistics, the two \<open>close\<close> calls, the last line.\<close>

definition server_cleanup :: "int \<Rightarrow> int \<Rightarrow> server_state \<Rightarrow> server_state" where
  "server_cleanup server_fd client_fd s =
     emit [Stdout (NL @ ''=== Server Statistics ==='' @ NL),
           Stdout (''Total messages: '' @ show_int (message_count s) @ NL),
           Stdout (''========================'' @ NL),
           CallClose client_fd,
           CallClose server_fd,
           Stdout (''Server shutdown complete'' @ NL)] s"

text \<open>
  The environment of the server: the return values of the start-up calls, the peer
  address that \<open>accept\<close> fills in (as \<open>inet_ntoa\<close> and \<open>ntohs\<close> render it), the contents of
  the uninitialised \<open>buffer\<close>, the signals delivered after the handlers were installed
  and before the loop condition is first tested, and the iterations.
\<close>

record server_env =
  socket_r :: int
  setsockopt_r :: int
  bind_r :: int
  listen_r :: int
  accept_r :: int
  peer_addr :: string
  peer_port :: int
  buffer0 :: "char list"
  sig_startup :: "int list"
  iters :: "iter_env list"

definition server_banner :: "int \<Rightarrow> event list" where
  "server_banner port =
     [CallSignal SIGINT, CallSignal SIGTERM,
      Stdout (''=== TCP Server Starting ==='' @ NL),
      Stdout (''Port: '' @ show_int port @ NL),
      Stdout (''Max connections: '' @ show_int MAX_CONNECTIONS @ NL),
      Stdout (''==========================='' @ NL @ NL)]"

text \<open>
  The state when the handlers have been installed: \<open>running = 1\<close> and
  \<open>message_count = 0\<close> as initialised, \<open>buffer\<close> as the environment left the stack, and
  \<open>bytes_received\<close> (also uninitialised, and written before it is ever read) as 0. The
  events of the loop are collected from the empty trace and appended to those of the
  start-up.
\<close>

definition server_init :: "server_env \<Rightarrow> server_state" where
  "server_init env =
     \<lparr>running = 1, buffer = buffer0 env, bytes_received = 0, message_count = 0, out = []\<rparr>"

text \<open>
  \<open>main\<close> of server.c: the trace, and the exit code (\<open>None\<close> when the process never
  leaves \<open>recv\<close>).
\<close>

definition server_main :: "string list \<Rightarrow> server_env \<Rightarrow> event list \<times> int option" where
  "server_main argv env =
     (if int (length argv) \<noteq> 2
      then ([Stderr (''Usage: '' @ arg0 argv @ '' <port>'' @ NL)], Some 1)
      else
        let port = atoi (argv ! 1);
            t1 = server_banner port @ [CallSocket];
            server_fd = socket_r env
        in if server_fd < 0
           then (t1 @ [Perror ''ERROR: Socket creation failed''], Some 1)
           else
             let t2 = t1 @ [CallSetsockopt server_fd]
             in if setsockopt_r env < 0
                then (t2 @ [Perror ''ERROR: Setsockopt failed'', CallClose server_fd], Some 1)
                else
                  let t3 = t2 @ [CallBind server_fd (htons port)]
                  in if bind_r env < 0
                     then (t3 @ [Perror ''ERROR: Bind failed'', CallClose server_fd], Some 1)
                     else
                       let t4 = t3 @ [CallListen server_fd MAX_CONNECTIONS]
                       in if listen_r env < 0
                          then (t4 @ [Perror ''ERROR: Listen failed'', CallClose server_fd], Some 1)
                          else
                            let t5 = t4 @ [Stdout (''Server listening on port '' @ show_int port @ NL),
                                           Stdout (''Waiting for connections...'' @ NL @ NL),
                                           CallAccept server_fd];
                                client_fd = accept_r env
                            in if client_fd < 0
                               then (t5 @ [Perror ''ERROR: Accept failed'', CallClose server_fd], Some 1)
                               else
                                 let t6 = t5 @ [Stdout (''Client connected from '' @ peer_addr env @ '':''
                                                        @ show_int (peer_port env) @ NL)];
                                     s0 = deliver (sig_startup env) (server_init env)
                                 in (case echo_loop client_fd s0 (iters env) of
                                       (s, BlockedInRecv) \<Rightarrow> (t6 @ out s, None)
                                     | (s, x) \<Rightarrow>
                                         (t6 @ out (server_cleanup server_fd client_fd s), Some 0)))"

subsection \<open>client.c\<close>

text \<open>
  The locals of the client's \<open>main\<close> that its loop changes (the suffix \<open>_c\<close> keeps them
  apart from the server's), and the trace so far.
\<close>

record client_state =
  i_c :: int
  message_c :: "char list"
  buffer_c :: "char list"
  bytes_sent_c :: int
  bytes_received_c :: int
  out_c :: "event list"

definition emit_c :: "event list \<Rightarrow> client_state \<Rightarrow> client_state" where
  "emit_c es s = s\<lparr>out_c := out_c s @ es\<rparr>"

text \<open>
  \<open>snprintf(message, BUFFER_SIZE, "Message %d from client", i)\<close>: the formatted text,
  cut to leave room for the terminating NUL.
\<close>

definition make_message :: "int \<Rightarrow> char list" where
  "make_message k = take (nat (BUFFER_SIZE - 1)) (''Message '' @ show_int k @ '' from client'')"

text \<open>What the environment does during one exchange: what \<open>send\<close> returns and what \<open>recv\<close> does.\<close>

record xchg_env =
  x_send_r :: int
  x_recv :: recv_outcome

datatype client_exit = AllDone | SendAbort | RecvAbort | Stalled

text \<open>
  One execution of the body of the \<open>for\<close> loop (lines 73 to 96). \<open>Some x\<close>: the body left
  the loop by \<open>break\<close>; \<open>None\<close>: it ran to its end (the increment of \<open>i\<close> is in \<open>client_loop\<close>).
\<close>

definition client_iter :: "int \<Rightarrow> client_state \<Rightarrow> xchg_env \<Rightarrow> client_state \<times> client_exit option" where
  "client_iter sock_fd s e =
     (let s1 = s\<lparr>message_c := make_message (i_c s)\<rparr>;
          s2 = emit_c [Stdout (''[MSG '' @ show_int (i_c s1) @ ''] Sending: '' @ message_c s1 @ NL)] s1;
          s3 = emit_c [CallSend sock_fd (message_c s2) (x_send_r e)] (s2\<lparr>bytes_sent_c := x_send_r e\<rparr>)
      in if bytes_sent_c s3 < 0 then (emit_c [Perror ''ERROR: Send failed''] s3, Some SendAbort)
         else
           let s4 = emit_c [Stdout (''[MSG '' @ show_int (i_c s3) @ ''] Sent ''
                                    @ show_int (bytes_sent_c s3) @ '' bytes'' @ NL)] s3;
               s5 = s4\<lparr>buffer_c := memset_zero BUFFER_SIZE\<rparr>;
               (rv, d) = recv_call (BUFFER_SIZE - 1) (x_recv e);
               s6 = emit_c [CallRecv sock_fd (BUFFER_SIZE - 1) rv d]
                      (s5\<lparr>buffer_c := store d (buffer_c s5), bytes_received_c := rv\<rparr>)
           in if bytes_received_c s6 < 0
              then (emit_c [Perror ''ERROR: Receive failed''] s6, Some RecvAbort)
              else (emit_c [Stdout (''[MSG '' @ show_int (i_c s6) @ ''] Received echo: ''
                                    @ c_string (buffer_c s6) @ '' (''
                                    @ show_int (bytes_received_c s6) @ '' bytes)'' @ NL),
                            CallSleep 1] s6,
                    None))"

text \<open>
  \<open>for (i = 1; i <= NUM_MESSAGES; i++) { ... }\<close>, started with \<open>i\<close> already set. When the
  environment has no further outcome the client stays blocked in the exchange.
\<close>

fun client_loop :: "int \<Rightarrow> client_state \<Rightarrow> xchg_env list \<Rightarrow> client_state \<times> client_exit" where
  "client_loop sock_fd s [] =
     (if i_c s \<le> NUM_MESSAGES then (s, Stalled) else (s, AllDone))"
| "client_loop sock_fd s (e # es) =
     (if i_c s \<le> NUM_MESSAGES then
        (case client_iter sock_fd s e of
           (s', Some x) \<Rightarrow> (s', x)
         | (s', None) \<Rightarrow> client_loop sock_fd (s'\<lparr>i_c := i_c s' + 1\<rparr>) es)
      else (s, AllDone))"

text \<open>Lines 99 to 106: the statistics, the \<open>close\<close>, the last line.\<close>

definition client_cleanup :: "int \<Rightarrow> client_state \<Rightarrow> client_state" where
  "client_cleanup sock_fd s =
     emit_c [Stdout (NL @ ''=== Client Statistics ==='' @ NL),
             Stdout (''Messages sent: '' @ show_int (i_c s - 1) @ NL),
             Stdout (''========================'' @ NL),
             CallClose sock_fd,
             Stdout (''Connection closed'' @ NL)] s"

text \<open>
  The environment of the client: whether \<open>gethostbyname\<close> finds the host, the return
  values of \<open>socket\<close> and \<open>connect\<close>, the contents of the two uninitialised arrays, and
  the exchanges.
\<close>

record client_env =
  host_found :: bool
  socket_rc :: int
  connect_r :: int
  message0 :: "char list"
  buffer0_c :: "char list"
  exchanges :: "xchg_env list"

definition client_banner :: "string \<Rightarrow> int \<Rightarrow> event list" where
  "client_banner hostname port =
     [Stdout (''=== TCP Client Starting ==='' @ NL),
      Stdout (''Server: '' @ hostname @ NL),
      Stdout (''Port: '' @ show_int port @ NL),
      Stdout (''==========================='' @ NL @ NL),
      CallGethostbyname hostname]"

text \<open>
  The state at the start of the \<open>for\<close> loop: \<open>i = 1\<close>, the arrays as the environment left
  the stack, the two counts (uninitialised, and written before they are read) as 0. The
  events of the loop are collected from the empty trace and appended to those of the
  start-up.
\<close>

definition client_init :: "client_env \<Rightarrow> client_state" where
  "client_init env =
     \<lparr>i_c = 1, message_c = message0 env, buffer_c = buffer0_c env,
      bytes_sent_c = 0, bytes_received_c = 0, out_c = []\<rparr>"

text \<open>
  \<open>main\<close> of client.c: the trace, and the exit code (\<open>None\<close> when the process never
  leaves a blocking call of the loop).
\<close>

definition client_main :: "string list \<Rightarrow> client_env \<Rightarrow> event list \<times> int option" where
  "client_main argv env =
     (if int (length argv) \<noteq> 3
      then ([Stderr (''Usage: '' @ arg0 argv @ '' <hostname> <port>'' @ NL)], Some 1)
      else
        let hostname = argv ! 1;
            port = atoi (argv ! 2);
            t1 = client_banner hostname port
        in if \<not> host_found env
           then (t1 @ [Stderr (''ERROR: No such host: '' @ hostname @ NL)], Some 1)
           else
             let t2 = t1 @ [CallSocket];
                 sock_fd = socket_rc env
             in if sock_fd < 0
                then (t2 @ [Perror ''ERROR: Socket creation failed''], Some 1)
                else
                  let t3 = t2 @ [Stdout (''Connecting to server...'' @ NL),
                                 CallConnect sock_fd (htons port)]
                  in if connect_r env < 0
                     then (t3 @ [Perror ''ERROR: Connection failed'', CallClose sock_fd], Some 1)
                     else
                       let t4 = t3 @ [Stdout (''Connected successfully!'' @ NL @ NL)]
                       in (case client_loop sock_fd (client_init env) (exchanges env) of
                             (s, Stalled) \<Rightarrow> (t4 @ out_c s, None)
                           | (s, x) \<Rightarrow> (t4 @ out_c (client_cleanup sock_fd s), Some 0)))"

subsection \<open>Observations on a run, and environments to run against\<close>

text \<open>What the \<open>recv\<close> of either loop returns and stores: both pass \<open>BUFFER_SIZE - 1\<close>.\<close>

definition recv_rv :: "recv_outcome \<Rightarrow> int" where
  "recv_rv r = fst (recv_call (BUFFER_SIZE - 1) r)"

definition recv_data :: "recv_outcome \<Rightarrow> char list" where
  "recv_data r = snd (recv_call (BUFFER_SIZE - 1) r)"

text \<open>The line the signal handler prints.\<close>

definition sig_line :: "int \<Rightarrow> event" where
  "sig_line signum =
     Stdout (NL @ ''Received signal '' @ show_int signum @ '', shutting down...'' @ NL)"

text \<open>The chunks that the positive-length reads of a trace stored, in order.\<close>

definition chunks_read :: "event list \<Rightarrow> char list list" where
  "chunks_read t = map snd (filter (\<lambda>p. 0 < fst p) (recvs_of t))"

text \<open>
  Server side: a start-up in which every call succeeds and no signal arrives; an
  iteration in which the peer's bytes \<open>m\<close> arrive and \<open>send\<close> takes all of them; an
  iteration in which the peer has closed.
\<close>

definition quiet_start :: "iter_env list \<Rightarrow> server_env" where
  "quiet_start es =
     \<lparr>socket_r = 3, setsockopt_r = 0, bind_r = 0, listen_r = 0, accept_r = 4,
      peer_addr = ''127.0.0.1'', peer_port = 40000, buffer0 = [], sig_startup = [],
      iters = es\<rparr>"

definition feed :: "char list \<Rightarrow> iter_env" where
  "feed m = \<lparr>sig_in_recv = [], recv_out = RecvBytes m, send_r = int (length m), sig_after = []\<rparr>"

definition hangup :: iter_env where
  "hangup = \<lparr>sig_in_recv = [], recv_out = RecvClosed, send_r = 0, sig_after = []\<rparr>"

text \<open>
  Client side: an exchange is completed when neither \<open>send\<close> nor \<open>recv\<close> returned a
  negative value; \<open>remaining s\<close> is the number of iterations the \<open>for\<close> loop still has
  from the state \<open>s\<close>.
\<close>

definition completed :: "xchg_env \<Rightarrow> bool" where
  "completed e = (0 \<le> x_send_r e \<and> 0 \<le> recv_rv (x_recv e))"

definition remaining :: "client_state \<Rightarrow> nat" where
  "remaining s = nat (NUM_MESSAGES + 1 - i_c s)"

text \<open>
  A monitor for the order of the calls in a trace: a \<open>send\<close> is allowed only when no
  exchange is open, a \<open>recv\<close> only after a \<open>send\<close> that did not fail, and neither after a
  call that failed. \<open>None\<close> is a violation.
\<close>

datatype phase = Idle | Awaiting | Dead

fun step_phase :: "phase option \<Rightarrow> event \<Rightarrow> phase option" where
  "step_phase ph (CallSend fd p r) =
     (if ph = Some Idle then Some (if r < 0 then Dead else Awaiting) else None)"
| "step_phase ph (CallRecv fd cap rv d) =
     (if ph = Some Awaiting then Some (if rv < 0 then Dead else Idle) else None)"
| "step_phase ph e = ph"

definition in_lockstep :: "event list \<Rightarrow> bool" where
  "in_lockstep t = (foldl step_phase (Some Idle) t \<noteq> None)"

text \<open>The five texts that \<open>snprintf\<close> produces for \<open>i\<close> from 1 to 5.\<close>

definition five_messages :: "char list list" where
  "five_messages =
     [''Message 1 from client'', ''Message 2 from client'', ''Message 3 from client'',
      ''Message 4 from client'', ''Message 5 from client'']"

text \<open>A start-up of the client in which every call succeeds.\<close>

definition connected :: "xchg_env list \<Rightarrow> client_env" where
  "connected xs =
     \<lparr>host_found = True, socket_rc = 3, connect_r = 0, message0 = [], buffer0_c = [],
      exchanges = xs\<rparr>"

text \<open>An exchange in which \<open>send\<close> takes the whole of \<open>m\<close> and \<open>r\<close> arrives in reply.\<close>

definition exchange_ok :: "char list \<Rightarrow> char list \<Rightarrow> xchg_env" where
  "exchange_ok m r = \<lparr>x_send_r = int (length m), x_recv = RecvBytes r\<rparr>"

text \<open>
  An iteration of the server in which bytes arrive, the echo is sent, and no signal is
  delivered; and the state after a run of iterations that all reach the end of the body.
\<close>

definition echoed :: "iter_env \<Rightarrow> bool" where
  "echoed e = (0 < recv_rv (recv_out e) \<and> 0 \<le> send_r e \<and> sig_in_recv e = [] \<and> sig_after e = [])"

definition run_iters :: "int \<Rightarrow> server_state \<Rightarrow> iter_env list \<Rightarrow> server_state" where
  "run_iters cfd s es = foldl (\<lambda>s e. fst (server_iter cfd s e)) s es"

text \<open>The events of a start-up of the server in which every call succeeds.\<close>

definition server_startup :: "string list \<Rightarrow> server_env \<Rightarrow> event list" where
  "server_startup argv env =
     server_banner (atoi (argv ! 1)) @
     [CallSocket, CallSetsockopt (socket_r env),
      CallBind (socket_r env) (htons (atoi (argv ! 1))),
      CallListen (socket_r env) MAX_CONNECTIONS,
      Stdout (''Server listening on port '' @ show_int (atoi (argv ! 1)) @ NL),
      Stdout (''Waiting for connections...'' @ NL @ NL),
      CallAccept (socket_r env),
      Stdout (''Client connected from '' @ peer_addr env @ '':'' @ show_int (peer_port env) @ NL)]"

definition echo_session :: "char list list \<Rightarrow> char list list" where
  "echo_session ms =
     sends_of (fst (server_main [''server'', ''8080''] (quiet_start (map feed ms @ [hangup]))))"

text \<open>The values that the \<open>send\<close> calls of a trace returned, in order.\<close>

fun send_rets_of :: "event list \<Rightarrow> int list" where
  "send_rets_of [] = []"
| "send_rets_of (CallSend fd p r # t) = r # send_rets_of t"
| "send_rets_of (e # t) = send_rets_of t"

section \<open>Properties\<close>

subsection \<open>What \<open>recv\<close> returns\<close>

lemma recv_data_length: "length (recv_data r) \<le> 1023"
  by (cases r) (simp_all add: recv_data_def BUFFER_SIZE_def)

lemma recv_rv_cases:
  "recv_rv r = (case r of RecvError \<Rightarrow> - 1 | _ \<Rightarrow> int (length (recv_data r)))"
  by (cases r) (simp_all add: recv_rv_def recv_data_def)

lemma recv_rv_le: "recv_rv r \<le> 1023"
  using recv_data_length [of r] by (cases r) (simp_all add: recv_rv_cases)

lemma recv_rv_pos: "0 < recv_rv r \<Longrightarrow> int (length (recv_data r)) = recv_rv r"
  by (cases r) (simp_all add: recv_rv_cases)

lemma recv_rv_pos_nat: "0 < recv_rv r \<Longrightarrow> nat (recv_rv r) = length (recv_data r)"
  using recv_rv_pos [of r] by simp

lemma recv_data_nonpos: "recv_rv r \<le> 0 \<Longrightarrow> recv_data r = []"
  by (cases r)
     (auto simp add: recv_rv_cases recv_data_def BUFFER_SIZE_def min_def split: if_splits)

lemma store_memset:
  "length d \<le> 1023 \<Longrightarrow> store d (memset_zero BUFFER_SIZE) = d @ replicate (1024 - length d) NUL"
  by (simp add: store_def memset_zero_def BUFFER_SIZE_def)

lemma take_store: "take (length d) (store d b) = d"
  by (simp add: store_def)

subsection \<open>Projections of traces\<close>

lemma sends_of_append [simp]: "sends_of (a @ b) = sends_of a @ sends_of b"
  by (induction a rule: sends_of.induct) simp_all

lemma recvs_of_append [simp]: "recvs_of (a @ b) = recvs_of a @ recvs_of b"
  by (induction a rule: recvs_of.induct) simp_all

lemma closes_of_append [simp]: "closes_of (a @ b) = closes_of a @ closes_of b"
  by (induction a rule: closes_of.induct) simp_all

lemma chunks_read_append [simp]: "chunks_read (a @ b) = chunks_read a @ chunks_read b"
  by (simp add: chunks_read_def)

lemma sends_of_sig [simp]: "sends_of (map sig_line sigs) = []"
  by (induction sigs) (simp_all add: sig_line_def)

lemma recvs_of_sig [simp]: "recvs_of (map sig_line sigs) = []"
  by (induction sigs) (simp_all add: sig_line_def)

lemma closes_of_sig [simp]: "closes_of (map sig_line sigs) = []"
  by (induction sigs) (simp_all add: sig_line_def)

subsection \<open>The server: state after the handler, after one iteration\<close>

lemma emit_fields [simp]:
  "running (emit es s) = running s"
  "buffer (emit es s) = buffer s"
  "bytes_received (emit es s) = bytes_received s"
  "message_count (emit es s) = message_count s"
  "out (emit es s) = out s @ es"
  by (simp_all add: emit_def)

lemma signal_handler_fields [simp]:
  "running (signal_handler n s) = 0"
  "buffer (signal_handler n s) = buffer s"
  "bytes_received (signal_handler n s) = bytes_received s"
  "message_count (signal_handler n s) = message_count s"
  "out (signal_handler n s) = out s @ [sig_line n]"
  by (simp_all add: signal_handler_def sig_line_def)

lemma deliver_fields [simp]:
  "buffer (deliver sigs s) = buffer s"
  "bytes_received (deliver sigs s) = bytes_received s"
  "message_count (deliver sigs s) = message_count s"
  "out (deliver sigs s) = out s @ map sig_line sigs"
  by (induction sigs arbitrary: s) simp_all

lemma running_deliver [simp]:
  "running (deliver sigs s) = (if sigs = [] then running s else 0)"
  by (induction sigs arbitrary: s) simp_all

lemma server_iter_exit:
  "snd (server_iter cfd s e) =
     (if recv_rv (recv_out e) = 0 then Some PeerClosed
      else if recv_rv (recv_out e) < 0 then Some RecvFailed
      else if send_r e < 0 then Some SendFailed else None)"
  by (simp add: server_iter_def recv_rv_def recv_data_def Let_def split_def)

lemma server_iter_fields:
  "bytes_received (fst (server_iter cfd s e)) = recv_rv (recv_out e)"
  "buffer (fst (server_iter cfd s e)) = store (recv_data (recv_out e)) (memset_zero BUFFER_SIZE)"
  "message_count (fst (server_iter cfd s e)) =
     (if 0 < recv_rv (recv_out e) then message_count s + 1 else message_count s)"
  by (simp_all add: server_iter_def recv_rv_def recv_data_def Let_def split_def)

lemma server_iter_running:
  "running (fst (server_iter cfd s e)) =
     (if sig_in_recv e = [] \<and> (snd (server_iter cfd s e) \<noteq> None \<or> sig_after e = [])
      then running s else 0)"
  by (simp add: server_iter_def recv_rv_def recv_data_def Let_def split_def)

lemma server_iter_recvs:
  "recvs_of (out (fst (server_iter cfd s e))) =
     recvs_of (out s) @ [(recv_rv (recv_out e), recv_data (recv_out e))]"
  by (simp add: server_iter_def recv_rv_def recv_data_def Let_def split_def prod_eq_iff)

lemma server_iter_sends:
  "sends_of (out (fst (server_iter cfd s e))) =
     sends_of (out s) @ (if 0 < recv_rv (recv_out e) then [recv_data (recv_out e)] else [])"
  using recv_rv_pos_nat [of "recv_out e"]
  by (simp add: server_iter_def recv_rv_def recv_data_def Let_def split_def take_store)

lemma server_iter_chunks:
  "chunks_read (out (fst (server_iter cfd s e))) =
     chunks_read (out s) @ (if 0 < recv_rv (recv_out e) then [recv_data (recv_out e)] else [])"
  by (simp add: chunks_read_def server_iter_recvs)

subsection \<open>The server: the loop\<close>

lemma echo_loop_flag: "running s = 0 \<Longrightarrow> echo_loop cfd s es = (s, FlagCleared)"
  by (cases es) simp_all

lemma echo_loop_step:
  "running s \<noteq> 0 \<Longrightarrow>
   echo_loop cfd s (e # es) =
     (case snd (server_iter cfd s e) of
        Some x \<Rightarrow> (fst (server_iter cfd s e), x)
      | None \<Rightarrow> echo_loop cfd (fst (server_iter cfd s e)) es)"
  by (cases "server_iter cfd s e") (simp split: option.splits)

subsection \<open>The exit code of the server\<close>

text \<open>
  C5. The server exits with code 1 on a usage error and when \<open>socket\<close>, \<open>setsockopt\<close>,
  \<open>bind\<close>, \<open>listen\<close> or \<open>accept\<close> fails; otherwise it exits with code 0 however the loop
  ends (flag cleared by a signal, peer disconnect, read error, and also send error),
  and it does not exit while it stays blocked in \<open>recv\<close>.
\<close>

theorem server_exit_code:
  "snd (server_main argv env) =
     (if int (length argv) \<noteq> 2 \<or> socket_r env < 0 \<or> setsockopt_r env < 0
         \<or> bind_r env < 0 \<or> listen_r env < 0 \<or> accept_r env < 0
      then Some 1
      else (case snd (echo_loop (accept_r env) (deliver (sig_startup env) (server_init env))
                        (iters env)) of
              FlagCleared \<Rightarrow> Some 0
            | PeerClosed \<Rightarrow> Some 0
            | RecvFailed \<Rightarrow> Some 0
            | SendFailed \<Rightarrow> Some 0
            | BlockedInRecv \<Rightarrow> None))"
proof (cases "int (length argv) \<noteq> 2 \<or> socket_r env < 0 \<or> setsockopt_r env < 0
         \<or> bind_r env < 0 \<or> listen_r env < 0 \<or> accept_r env < 0")
  case True
  then show ?thesis
    by (auto simp add: server_main_def Let_def)
next
  case False
  obtain s x where lp:
    "echo_loop (accept_r env) (deliver (sig_startup env) (server_init env)) (iters env) = (s, x)"
    by (cases "echo_loop (accept_r env) (deliver (sig_startup env) (server_init env)) (iters env)")
  from False lp show ?thesis
    by (cases x) (simp_all add: server_main_def Let_def)
qed

theorem server_exit_code_witness:
  "snd (server_main [''server'', ''8080''] (quiet_start [feed ''hi'', hangup])) = Some 0
   \<and> snd (server_main [''server'', ''8080''] ((quiet_start [])\<lparr>bind_r := - 1\<rparr>)) = Some 1
   \<and> snd (server_main [''server''] (quiet_start [])) = Some 1
   \<and> snd (server_main [''server'', ''8080''] (quiet_start [feed ''hi''])) = None"
  using server_exit_code [of "[''server'', ''8080'']" "quiet_start [feed ''hi'', hangup]"]
    server_exit_code [of "[''server'', ''8080'']" "(quiet_start [])\<lparr>bind_r := - 1\<rparr>"]
    server_exit_code [of "[''server'']" "quiet_start []"]
    server_exit_code [of "[''server'', ''8080'']" "quiet_start [feed ''hi'']"]
  by (simp add: quiet_start_def feed_def hangup_def server_init_def server_iter_def
        BUFFER_SIZE_def Let_def)

subsection \<open>The client: state after one exchange, and the loop\<close>

lemma emit_c_fields [simp]:
  "i_c (emit_c es s) = i_c s"
  "message_c (emit_c es s) = message_c s"
  "buffer_c (emit_c es s) = buffer_c s"
  "bytes_sent_c (emit_c es s) = bytes_sent_c s"
  "bytes_received_c (emit_c es s) = bytes_received_c s"
  "out_c (emit_c es s) = out_c s @ es"
  by (simp_all add: emit_c_def)

lemma client_iter_exit:
  "snd (client_iter fd s e) =
     (if x_send_r e < 0 then Some SendAbort
      else if recv_rv (x_recv e) < 0 then Some RecvAbort else None)"
  by (simp add: client_iter_def recv_rv_def recv_data_def Let_def split_def)

lemma client_iter_continues:
  "snd (client_iter fd s e) = None \<longleftrightarrow> completed e"
  by (auto simp add: client_iter_exit completed_def)

lemma client_iter_fields:
  "i_c (fst (client_iter fd s e)) = i_c s"
  "message_c (fst (client_iter fd s e)) = make_message (i_c s)"
  "buffer_c (fst (client_iter fd s e)) =
     (if x_send_r e < 0 then buffer_c s
      else store (recv_data (x_recv e)) (memset_zero BUFFER_SIZE))"
  by (simp_all add: client_iter_def recv_rv_def recv_data_def Let_def split_def)

lemma client_iter_sends:
  "sends_of (out_c (fst (client_iter fd s e))) = sends_of (out_c s) @ [make_message (i_c s)]"
  by (simp add: client_iter_def recv_rv_def recv_data_def Let_def split_def)

lemma client_iter_recvs:
  "recvs_of (out_c (fst (client_iter fd s e))) =
     recvs_of (out_c s) @
       (if x_send_r e < 0 then [] else [(recv_rv (x_recv e), recv_data (x_recv e))])"
  by (simp add: client_iter_def recv_rv_def recv_data_def Let_def split_def prod_eq_iff)

lemma client_iter_phase:
  "foldl step_phase (Some Idle) (out_c s) = Some Idle \<Longrightarrow>
   foldl step_phase (Some Idle) (out_c (fst (client_iter fd s e))) =
     Some (if completed e then Idle else Dead)"
  by (simp add: client_iter_def recv_rv_def recv_data_def Let_def split_def completed_def)

lemma client_loop_step:
  "i_c s \<le> NUM_MESSAGES \<Longrightarrow>
   client_loop fd s (e # es) =
     (if completed e then client_loop fd ((fst (client_iter fd s e))\<lparr>i_c := i_c s + 1\<rparr>) es
      else (fst (client_iter fd s e),
            if x_send_r e < 0 then SendAbort else RecvAbort))"
  using client_iter_exit [of fd s e] client_iter_fields(1) [of fd s e]
  by (cases "client_iter fd s e") (auto simp add: completed_def split: option.splits if_splits)

lemma remaining_Suc:
  "i_c s \<le> NUM_MESSAGES \<Longrightarrow> remaining s = Suc (remaining (s'\<lparr>i_c := i_c s + 1\<rparr>))"
  by (simp add: remaining_def NUM_MESSAGES_def)

lemma remaining_0: "\<not> i_c s \<le> NUM_MESSAGES \<Longrightarrow> remaining s = 0"
  by (simp add: remaining_def NUM_MESSAGES_def)

lemma client_loop_i:
  "i_c (fst (client_loop fd s es)) =
     i_c s + int (length (takeWhile completed (take (remaining s) es)))"
proof (induction es arbitrary: s)
  case Nil
  then show ?case by simp
next
  case (Cons e es)
  show ?case
  proof (cases "i_c s \<le> NUM_MESSAGES")
    case False
    then show ?thesis by (simp add: remaining_0)
  next
    case True
    let ?s' = "(fst (client_iter fd s e))\<lparr>i_c := i_c s + 1\<rparr>"
    have r: "remaining s = Suc (remaining ?s')"
      using True by (rule remaining_Suc)
    show ?thesis
    proof (cases "completed e")
      case c: True
      with True r Cons.IH [of ?s'] show ?thesis
        by (simp add: client_loop_step del: client_loop.simps)
    next
      case c: False
      with True r show ?thesis
        by (simp add: client_loop_step client_iter_fields del: client_loop.simps)
    qed
  qed
qed

lemma client_loop_exit:
  "snd (client_loop fd s es) =
     (let todo = take (remaining s) es; n = length (takeWhile completed todo)
      in if n = remaining s then AllDone
         else if n = length es then Stalled
         else if x_send_r (es ! n) < 0 then SendAbort else RecvAbort)"
proof (induction es arbitrary: s)
  case Nil
  then show ?case by (auto simp add: Let_def remaining_def NUM_MESSAGES_def)
next
  case (Cons e es)
  show ?case
  proof (cases "i_c s \<le> NUM_MESSAGES")
    case False
    then show ?thesis by (simp add: remaining_0)
  next
    case True
    let ?s' = "(fst (client_iter fd s e))\<lparr>i_c := i_c s + 1\<rparr>"
    have r: "remaining s = Suc (remaining ?s')"
      using True by (rule remaining_Suc)
    show ?thesis
    proof (cases "completed e")
      case c: True
      with True r Cons.IH [of ?s'] show ?thesis
        by (simp add: client_loop_step Let_def del: client_loop.simps)
    next
      case c: False
      with True r show ?thesis
        by (simp add: client_loop_step Let_def del: client_loop.simps)
    qed
  qed
qed

lemma client_loop_sends:
  "sends_of (out_c (fst (client_loop fd s es))) =
     sends_of (out_c s) @
       map (\<lambda>j. make_message (i_c s + int j))
         [0 ..< min (length (take (remaining s) es))
                    (Suc (length (takeWhile completed (take (remaining s) es))))]"
proof (induction es arbitrary: s)
  case Nil
  then show ?case by simp
next
  case (Cons e es)
  show ?case
  proof (cases "i_c s \<le> NUM_MESSAGES")
    case False
    then show ?thesis by (simp add: remaining_0)
  next
    case True
    let ?s' = "(fst (client_iter fd s e))\<lparr>i_c := i_c s + 1\<rparr>"
    have r: "remaining s = Suc (remaining ?s')"
      using True by (rule remaining_Suc)
    show ?thesis
    proof (cases "completed e")
      case c: True
      have shift: "\<And>m. map (\<lambda>j. make_message (i_c s + int j)) [0..<Suc m] =
          make_message (i_c s) # map (\<lambda>j. make_message (i_c s + 1 + int j)) [0..<m]"
        by (simp add: upt_conv_Cons map_Suc_upt [symmetric] del: upt_Suc) (simp add: add.commute add.left_commute)
      from c True r Cons.IH [of ?s'] show ?thesis
        by (simp add: client_loop_step client_iter_sends shift del: upt_Suc client_loop.simps)
    next
      case c: False
      with True r show ?thesis
        by (simp add: client_loop_step client_iter_sends del: client_loop.simps)
    qed
  qed
qed

lemma client_loop_phase:
  "foldl step_phase (Some Idle) (out_c s) = Some Idle \<Longrightarrow>
   foldl step_phase (Some Idle) (out_c (fst (client_loop fd s es))) \<in> {Some Idle, Some Dead}"
proof (induction es arbitrary: s)
  case Nil
  then show ?case by simp
next
  case (Cons e es)
  show ?case
  proof (cases "i_c s \<le> NUM_MESSAGES")
    case False
    with Cons.prems show ?thesis by simp
  next
    case True
    let ?s' = "(fst (client_iter fd s e))\<lparr>i_c := i_c s + 1\<rparr>"
    show ?thesis
    proof (cases "completed e")
      case c: True
      have "foldl step_phase (Some Idle) (out_c ?s') = Some Idle"
        using client_iter_phase [OF Cons.prems, of fd e] c by simp
      from Cons.IH [OF this] c True show ?thesis
        by (simp add: client_loop_step del: client_loop.simps)
    next
      case c: False
      with True client_iter_phase [OF Cons.prems, of fd e] show ?thesis
        by (simp add: client_loop_step del: client_loop.simps)
    qed
  qed
qed

lemma client_loop_recvs:
  "recvs_of (out_c (fst (client_loop fd s es))) =
     recvs_of (out_c s) @
       map (\<lambda>e. (recv_rv (x_recv e), recv_data (x_recv e)))
         (takeWhile (\<lambda>e. 0 \<le> x_send_r e)
            (take (Suc (length (takeWhile completed (take (remaining s) es))))
               (take (remaining s) es)))"
proof (induction es arbitrary: s)
  case Nil
  then show ?case by simp
next
  case (Cons e es)
  show ?case
  proof (cases "i_c s \<le> NUM_MESSAGES")
    case False
    then show ?thesis by (simp add: remaining_0)
  next
    case True
    let ?s' = "(fst (client_iter fd s e))\<lparr>i_c := i_c s + 1\<rparr>"
    have r: "remaining s = Suc (remaining ?s')"
      using True by (rule remaining_Suc)
    show ?thesis
    proof (cases "completed e")
      case c: True
      then have "0 \<le> x_send_r e" by (simp add: completed_def)
      with c True r Cons.IH [of ?s'] show ?thesis
        by (simp add: client_loop_step client_iter_recvs del: client_loop.simps)
    next
      case c: False
      with True r show ?thesis
        by (simp add: client_loop_step client_iter_recvs del: client_loop.simps)
    qed
  qed
qed

lemma make_message_five: "map (\<lambda>j. make_message (1 + int j)) [0..<5] = five_messages"
  by code_simp

lemma remaining_init: "remaining (client_init env) = 5"
  by (simp add: remaining_def client_init_def NUM_MESSAGES_def)

lemma client_init_fields [simp]:
  "i_c (client_init env) = 1" "out_c (client_init env) = []"
  by (simp_all add: client_init_def)

lemma client_main_started:
  assumes "int (length argv) = 3" "host_found env" "0 \<le> socket_rc env" "0 \<le> connect_r env"
    and "client_loop (socket_rc env) (client_init env) (exchanges env) = (s, x)"
  shows "sends_of (fst (client_main argv env)) = sends_of (out_c s)"
    and "recvs_of (fst (client_main argv env)) = recvs_of (out_c s)"
    and "foldl step_phase (Some Idle) (fst (client_main argv env)) =
           foldl step_phase (Some Idle) (out_c s)"
    and "snd (client_main argv env) = (if x = Stalled then None else Some 0)"
    and "x \<noteq> Stalled \<Longrightarrow>
           Stdout (''Messages sent: '' @ show_int (i_c s - 1) @ NL) \<in> set (fst (client_main argv env))"
  using assms
  by (cases x; simp add: client_main_def Let_def client_banner_def client_cleanup_def)+

lemma recv_call_eq: "recv_call (BUFFER_SIZE - 1) r = (recv_rv r, recv_data r)"
  by (simp add: recv_rv_def recv_data_def)

lemma take_five_messages: "m \<le> 5 \<Longrightarrow> map (\<lambda>j. make_message (1 + int j)) [0..<m] = take m five_messages"
proof -
  assume m: "m \<le> 5"
  have "take m (map (\<lambda>j. make_message (1 + int j)) [0..<5]) =
        map (\<lambda>j. make_message (1 + int j)) (take m [0..<5])"
    by (rule take_map)
  also have "take m [0..<5] = [0..<m]"
    using m by (simp del: upt_Suc)
  finally show ?thesis
    by (simp only: make_message_five)
qed

subsection \<open>The exit code of the client\<close>

text \<open>
  C4. The client exits with code 1 on a usage error and when the host is not found, or
  \<open>socket\<close> or \<open>connect\<close> fails, and in each of these cases (so also on a connect failure)
  no \<open>send\<close> is attempted. In every other case it exits with code 0 once the loop is
  left, whether all exchanges were done or a failed \<open>send\<close> or \<open>recv\<close> broke the loop; it
  does not exit while it stays blocked in an exchange.
\<close>

theorem client_exit_code:
  "snd (client_main argv env) =
     (if int (length argv) \<noteq> 3 \<or> \<not> host_found env \<or> socket_rc env < 0 \<or> connect_r env < 0
      then Some 1
      else (case snd (client_loop (socket_rc env) (client_init env) (exchanges env)) of
              AllDone \<Rightarrow> Some 0
            | SendAbort \<Rightarrow> Some 0
            | RecvAbort \<Rightarrow> Some 0
            | Stalled \<Rightarrow> None))
   \<and> (int (length argv) \<noteq> 3 \<or> \<not> host_found env \<or> socket_rc env < 0 \<or> connect_r env < 0
        \<longrightarrow> sends_of (fst (client_main argv env)) = [])"
proof (cases "int (length argv) \<noteq> 3 \<or> \<not> host_found env \<or> socket_rc env < 0 \<or> connect_r env < 0")
  case True
  then show ?thesis
    by (auto simp add: client_main_def Let_def client_banner_def)
next
  case False
  obtain s x where lp: "client_loop (socket_rc env) (client_init env) (exchanges env) = (s, x)"
    by (cases "client_loop (socket_rc env) (client_init env) (exchanges env)")
  from False lp show ?thesis
    by (cases x) (simp_all add: client_main_def Let_def)
qed

theorem client_exit_code_witness:
  "snd (client_main [''client'', ''localhost'', ''8080'']
          ((connected [])\<lparr>connect_r := - 1\<rparr>)) = Some 1
   \<and> sends_of (fst (client_main [''client'', ''localhost'', ''8080'']
          ((connected [])\<lparr>connect_r := - 1\<rparr>))) = []
   \<and> snd (client_main [''client'', ''localhost'']  (connected [])) = Some 1
   \<and> snd (client_main [''client'', ''localhost'', ''8080'']
          (connected [\<lparr>x_send_r = 21, x_recv = RecvBytes ''Message 1 from client''\<rparr>,
                      \<lparr>x_send_r = - 1, x_recv = RecvClosed\<rparr>])) = Some 0"
  using client_exit_code [of "[''client'', ''localhost'', ''8080'']" "(connected [])\<lparr>connect_r := - 1\<rparr>"]
    client_exit_code [of "[''client'', ''localhost'']" "connected []"]
    client_exit_code [of "[''client'', ''localhost'', ''8080'']"
       "connected [\<lparr>x_send_r = 21, x_recv = RecvBytes ''Message 1 from client''\<rparr>,
                      \<lparr>x_send_r = - 1, x_recv = RecvClosed\<rparr>]"]
  by (simp add: connected_def client_loop_exit remaining_init completed_def recv_rv_cases Let_def
        del: client_loop.simps)

subsection \<open>The exchanges of the client\<close>

text \<open>
  C2. After a successful start-up the client sends "Message i from client" for
  i = 1, 2, ... in ascending order: one more than the number of exchanges completed
  before the first failure, and five when all complete (fewer only if the environment
  stops answering). Sends and receives strictly alternate and nothing is sent or
  received after a call that failed (\<open>in_lockstep\<close>). When the environment answers
  every call the process exits with code 0 after printing the number of completed
  exchanges in its summary.
\<close>

theorem client_five_exchanges:
  assumes "int (length argv) = 3" "host_found env" "0 \<le> socket_rc env" "0 \<le> connect_r env"
  shows "sends_of (fst (client_main argv env)) =
           take (min (length (exchanges env))
                     (Suc (length (takeWhile completed (take 5 (exchanges env))))))
             five_messages
       \<and> in_lockstep (fst (client_main argv env))
       \<and> (5 \<le> length (exchanges env) \<longrightarrow>
            snd (client_main argv env) = Some 0
          \<and> Stdout (''Messages sent: ''
                     @ show_int (int (length (takeWhile completed (take 5 (exchanges env))))) @ NL)
              \<in> set (fst (client_main argv env)))
       \<and> (5 \<le> length (exchanges env) \<and> list_all completed (take 5 (exchanges env)) \<longrightarrow>
            sends_of (fst (client_main argv env)) = five_messages
          \<and> length (recvs_of (fst (client_main argv env))) = 5)"
proof -
  let ?es = "exchanges env"
  let ?n = "length (takeWhile completed (take 5 ?es))"
  obtain s x where lp: "client_loop (socket_rc env) (client_init env) ?es = (s, x)"
    by (cases "client_loop (socket_rc env) (client_init env) ?es")
  note m = client_main_started [OF assms lp]
  have s: "s = fst (client_loop (socket_rc env) (client_init env) ?es)"
    and x: "x = snd (client_loop (socket_rc env) (client_init env) ?es)"
    using lp by simp_all
  have n5: "?n \<le> 5"
    using length_takeWhile_le [of completed "take 5 ?es"] by simp
  have snd1: "sends_of (out_c s) =
      map (\<lambda>j. make_message (1 + int j)) [0..<min (length (take 5 ?es)) (Suc ?n)]"
    unfolding s by (simp add: client_loop_sends remaining_init del: upt_Suc)
  have "min (length (take 5 ?es)) (Suc ?n) \<le> 5" by simp
  from take_five_messages [OF this]
  have snd2: "sends_of (out_c s) = take (min (length (take 5 ?es)) (Suc ?n)) five_messages"
    using snd1 by simp
  have len5: "length five_messages = 5" by (simp add: five_messages_def)
  have A: "sends_of (fst (client_main argv env)) = take (min (length ?es) (Suc ?n)) five_messages"
    using snd2 len5 by (simp add: m(1) min_def split: if_splits)
  have "foldl step_phase (Some Idle) (out_c s) \<in> {Some Idle, Some Dead}"
    unfolding s by (rule client_loop_phase) simp
  then have B: "in_lockstep (fst (client_main argv env))"
    by (auto simp add: in_lockstep_def m(3))
  have C: "snd (client_main argv env) = Some 0
          \<and> Stdout (''Messages sent: '' @ show_int (int ?n) @ NL) \<in> set (fst (client_main argv env))"
    if "5 \<le> length ?es"
  proof -
    have "x \<noteq> Stalled"
      using that n5 unfolding x by (simp add: client_loop_exit remaining_init Let_def)
    moreover have "i_c s - 1 = int ?n"
      unfolding s by (simp add: client_loop_i remaining_init)
    ultimately show ?thesis
      using m(4) m(5) by simp
  qed
  have D: "sends_of (fst (client_main argv env)) = five_messages
          \<and> length (recvs_of (fst (client_main argv env))) = 5"
    if "5 \<le> length ?es \<and> list_all completed (take 5 ?es)"
  proof -
    have all: "\<forall>e\<in>set (take 5 ?es). completed e"
      using that by (simp add: list_all_iff)
    then have tw: "takeWhile completed (take 5 ?es) = take 5 ?es"
      by simp
    have "\<forall>e\<in>set (take 5 ?es). 0 \<le> x_send_r e"
      using all by (simp add: completed_def)
    then have tw2: "takeWhile (\<lambda>e. 0 \<le> x_send_r e) (take 5 ?es) = take 5 ?es"
      by simp
    have "length (recvs_of (out_c s)) = 5"
      unfolding s using that by (simp add: client_loop_recvs remaining_init tw tw2)
    moreover have "sends_of (fst (client_main argv env)) = five_messages"
      using A that len5 by (simp add: tw)
    ultimately show ?thesis by (simp add: m(2))
  qed
  from A B C D show ?thesis by blast
qed

theorem client_five_exchanges_witness:
  "sends_of (fst (client_main [''client'', ''localhost'', ''8080'']
                    (connected (map (\<lambda>m. exchange_ok m m) five_messages)))) = five_messages
   \<and> in_lockstep (fst (client_main [''client'', ''localhost'', ''8080'']
                    (connected (map (\<lambda>m. exchange_ok m m) five_messages))))
   \<and> snd (client_main [''client'', ''localhost'', ''8080'']
                    (connected (map (\<lambda>m. exchange_ok m m) five_messages))) = Some 0
   \<and> Stdout (''Messages sent: 5'' @ NL)
        \<in> set (fst (client_main [''client'', ''localhost'', ''8080'']
                    (connected (map (\<lambda>m. exchange_ok m m) five_messages))))
   \<and> length (recvs_of (fst (client_main [''client'', ''localhost'', ''8080'']
                    (connected (map (\<lambda>m. exchange_ok m m) five_messages))))) = 5"
  using client_five_exchanges [of "[''client'', ''localhost'', ''8080'']"
          "connected (map (\<lambda>m. exchange_ok m m) five_messages)"]
  by (simp add: connected_def exchange_ok_def five_messages_def completed_def recv_rv_cases
        show_int_def show_nat.simps)

subsection \<open>The server: invariants of the loop, and \<open>main\<close> around it\<close>

lemma server_init_fields [simp]:
  "running (server_init env) = 1" "message_count (server_init env) = 0"
  "out (server_init env) = []" "buffer (server_init env) = buffer0 env"
  by (simp_all add: server_init_def)

lemma server_iter_closes:
  "closes_of (out (fst (server_iter cfd s e))) = closes_of (out s)"
  by (simp add: server_iter_def recv_call_eq Let_def)

lemma server_iter_buffer_indep: "server_iter cfd (s\<lparr>buffer := b\<rparr>) e = server_iter cfd s e"
  by (simp add: server_iter_def)

lemma echo_loop_invariant:
  assumes step: "\<And>s e. P (out s) (message_count s) \<Longrightarrow>
            P (out (fst (server_iter cfd s e))) (message_count (fst (server_iter cfd s e)))"
    and init: "P (out s) (message_count s)"
  shows "P (out (fst (echo_loop cfd s es))) (message_count (fst (echo_loop cfd s es)))"
  using init
proof (induction es arbitrary: s)
  case Nil
  then show ?case by simp
next
  case (Cons e es)
  show ?case
  proof (cases "running s = 0")
    case True
    with Cons.prems show ?thesis by simp
  next
    case False
    have inv: "P (out (fst (server_iter cfd s e))) (message_count (fst (server_iter cfd s e)))"
      using Cons.prems by (rule step)
    show ?thesis
    proof (cases "snd (server_iter cfd s e)")
      case None
      with False Cons.IH [OF inv] show ?thesis
        by (simp add: echo_loop_step del: echo_loop.simps)
    next
      case (Some x)
      with False inv show ?thesis
        by (simp add: echo_loop_step del: echo_loop.simps)
    qed
  qed
qed

lemma echo_loop_echoes:
  "sends_of (out s) = chunks_read (out s) \<Longrightarrow>
   sends_of (out (fst (echo_loop cfd s es))) = chunks_read (out (fst (echo_loop cfd s es)))"
  by (rule echo_loop_invariant [where P = "\<lambda>t n. sends_of t = chunks_read t"])
     (simp_all add: server_iter_sends server_iter_chunks)

lemma echo_loop_count:
  "message_count s = int (length (chunks_read (out s))) \<Longrightarrow>
   message_count (fst (echo_loop cfd s es)) =
     int (length (chunks_read (out (fst (echo_loop cfd s es)))))"
  by (rule echo_loop_invariant [where P = "\<lambda>t n. n = int (length (chunks_read t))"])
     (simp_all add: server_iter_fields server_iter_chunks)

lemma echo_loop_closes:
  "closes_of (out (fst (echo_loop cfd s es))) = closes_of (out s)"
  by (rule echo_loop_invariant [where P = "\<lambda>t n. closes_of t = closes_of (out s)"])
     (simp_all add: server_iter_closes)

lemma echo_loop_mono: "message_count s \<le> message_count (fst (echo_loop cfd s es))"
  by (rule echo_loop_invariant [where P = "\<lambda>t n. message_count s \<le> n"])
     (simp_all add: server_iter_fields)

lemma echo_loop_buffer_indep:
  "out (fst (echo_loop cfd (s\<lparr>buffer := b\<rparr>) es)) = out (fst (echo_loop cfd s es))
   \<and> message_count (fst (echo_loop cfd (s\<lparr>buffer := b\<rparr>) es)) = message_count (fst (echo_loop cfd s es))
   \<and> snd (echo_loop cfd (s\<lparr>buffer := b\<rparr>) es) = snd (echo_loop cfd s es)"
  by (cases es) (simp_all add: server_iter_buffer_indep)

lemma run_iters_fields:
  "\<forall>p\<in>set pre. echoed p \<Longrightarrow>
   running (run_iters cfd s pre) = running s
   \<and> message_count (run_iters cfd s pre) = message_count s + int (length pre)
   \<and> recvs_of (out (run_iters cfd s pre)) =
       recvs_of (out s) @ map (\<lambda>e. (recv_rv (recv_out e), recv_data (recv_out e))) pre
   \<and> sends_of (out (run_iters cfd s pre)) =
       sends_of (out s) @ map (\<lambda>e. recv_data (recv_out e)) pre"
proof (induction pre arbitrary: s)
  case Nil
  show ?case by (simp add: run_iters_def)
next
  case (Cons e pre)
  then have e: "echoed e" and pre: "\<forall>p\<in>set pre. echoed p"
    by simp_all
  have unf: "run_iters cfd s (e # pre) = run_iters cfd (fst (server_iter cfd s e)) pre"
    by (simp add: run_iters_def)
  from e have "snd (server_iter cfd s e) = None"
    by (simp add: server_iter_exit echoed_def)
  with e have "running (fst (server_iter cfd s e)) = running s"
    by (simp add: server_iter_running echoed_def)
  with Cons.IH [OF pre, of "fst (server_iter cfd s e)"] e show ?case
    unfolding unf
    by (simp add: server_iter_fields server_iter_recvs server_iter_sends echoed_def)
qed

lemma echo_loop_run:
  "running s \<noteq> 0 \<Longrightarrow> \<forall>p\<in>set pre. echoed p \<Longrightarrow>
   echo_loop cfd s (pre @ rest) = echo_loop cfd (run_iters cfd s pre) rest"
proof (induction pre arbitrary: s)
  case Nil
  show ?case by (simp add: run_iters_def)
next
  case (Cons e pre)
  then have e: "echoed e" and pre: "\<forall>p\<in>set pre. echoed p"
    by simp_all
  have unf: "run_iters cfd s (e # pre) = run_iters cfd (fst (server_iter cfd s e)) pre"
    by (simp add: run_iters_def)
  from e have none: "snd (server_iter cfd s e) = None"
    by (simp add: server_iter_exit echoed_def)
  with e Cons.prems(1) have "running (fst (server_iter cfd s e)) \<noteq> 0"
    by (simp add: server_iter_running echoed_def)
  from Cons.IH [OF this pre] none Cons.prems(1) show ?case
    unfolding unf by (simp add: echo_loop_step del: echo_loop.simps)
qed

lemma server_startup_proj [simp]:
  "sends_of (server_startup argv env) = []"
  "recvs_of (server_startup argv env) = []"
  "closes_of (server_startup argv env) = []"
  by (simp_all add: server_startup_def server_banner_def)

lemma server_main_ok:
  assumes "\<not> (int (length argv) \<noteq> 2 \<or> socket_r env < 0 \<or> setsockopt_r env < 0
         \<or> bind_r env < 0 \<or> listen_r env < 0 \<or> accept_r env < 0)"
  shows "server_main argv env =
     (case echo_loop (accept_r env) (deliver (sig_startup env) (server_init env)) (iters env) of
        (s, BlockedInRecv) \<Rightarrow> (server_startup argv env @ out s, None)
      | (s, x) \<Rightarrow>
          (server_startup argv env @ out (server_cleanup (socket_r env) (accept_r env) s), Some 0))"
proof -
  obtain s x where lp:
    "echo_loop (accept_r env) (deliver (sig_startup env) (server_init env)) (iters env) = (s, x)"
    by (cases "echo_loop (accept_r env) (deliver (sig_startup env) (server_init env)) (iters env)")
  from assms lp show ?thesis
    by (cases x) (simp_all add: server_main_def Let_def server_startup_def)
qed

lemma server_main_started:
  assumes "int (length argv) = 2" "0 \<le> socket_r env" "0 \<le> setsockopt_r env" "0 \<le> bind_r env"
    "0 \<le> listen_r env" "0 \<le> accept_r env"
    and lp: "echo_loop (accept_r env) (deliver (sig_startup env) (server_init env)) (iters env) = (s, x)"
  shows "sends_of (fst (server_main argv env)) = sends_of (out s)"
    and "recvs_of (fst (server_main argv env)) = recvs_of (out s)"
    and "closes_of (fst (server_main argv env)) =
           closes_of (out s) @ (if x = BlockedInRecv then [] else [accept_r env, socket_r env])"
    and "snd (server_main argv env) = (if x = BlockedInRecv then None else Some 0)"
    and "x \<noteq> BlockedInRecv \<Longrightarrow>
           Stdout (''Total messages: '' @ show_int (message_count s) @ NL)
             \<in> set (fst (server_main argv env))"
    and "x \<noteq> BlockedInRecv \<Longrightarrow>
           last (fst (server_main argv env)) = Stdout (''Server shutdown complete'' @ NL)"
proof -
  have ok: "\<not> (int (length argv) \<noteq> 2 \<or> socket_r env < 0 \<or> setsockopt_r env < 0
         \<or> bind_r env < 0 \<or> listen_r env < 0 \<or> accept_r env < 0)"
    using assms(1-6) by simp
  note m = server_main_ok [OF ok, unfolded lp]
  show "sends_of (fst (server_main argv env)) = sends_of (out s)"
    unfolding m by (cases x) (simp_all add: server_cleanup_def)
  show "recvs_of (fst (server_main argv env)) = recvs_of (out s)"
    unfolding m by (cases x) (simp_all add: server_cleanup_def)
  show "closes_of (fst (server_main argv env)) =
           closes_of (out s) @ (if x = BlockedInRecv then [] else [accept_r env, socket_r env])"
    unfolding m by (cases x) (simp_all add: server_cleanup_def)
  show "snd (server_main argv env) = (if x = BlockedInRecv then None else Some 0)"
    unfolding m by (cases x) simp_all
  show "Stdout (''Total messages: '' @ show_int (message_count s) @ NL)
             \<in> set (fst (server_main argv env))" if "x \<noteq> BlockedInRecv"
    using that unfolding m by (cases x) (simp_all add: server_cleanup_def)
  show "last (fst (server_main argv env)) = Stdout (''Server shutdown complete'' @ NL)"
    if "x \<noteq> BlockedInRecv"
    using that unfolding m by (cases x) (simp_all add: server_cleanup_def)
qed

lemma server_main_failed:
  "int (length argv) \<noteq> 2 \<or> socket_r env < 0 \<or> setsockopt_r env < 0 \<or> bind_r env < 0
     \<or> listen_r env < 0 \<or> accept_r env < 0 \<Longrightarrow>
   sends_of (fst (server_main argv env)) = [] \<and> recvs_of (fst (server_main argv env)) = []"
  by (auto simp add: server_main_def Let_def server_banner_def)

lemma echo_loop_exit_state:
  "echo_loop cfd s es = (s', x) \<Longrightarrow>
     (case x of
        FlagCleared \<Rightarrow> running s' = 0
      | PeerClosed \<Rightarrow> bytes_received s' = 0 \<and> last (out s') = Stdout (''Client disconnected'' @ NL)
      | RecvFailed \<Rightarrow> bytes_received s' < 0 \<and> last (out s') = Perror ''ERROR: Receive failed''
      | SendFailed \<Rightarrow> 0 < bytes_received s' \<and> last (out s') = Perror ''ERROR: Send failed''
      | BlockedInRecv \<Rightarrow> running s' \<noteq> 0)"
proof (induction es arbitrary: s)
  case Nil
  then show ?case by (auto split: if_splits)
next
  case (Cons e es)
  show ?case
  proof (cases "running s = 0")
    case True
    with Cons.prems show ?thesis by simp
  next
    case False
    show ?thesis
    proof (cases "snd (server_iter cfd s e)")
      case None
      with False Cons.prems have "echo_loop cfd (fst (server_iter cfd s e)) es = (s', x)"
        by (simp add: echo_loop_step del: echo_loop.simps)
      then show ?thesis by (rule Cons.IH)
    next
      case (Some y)
      with False Cons.prems have st: "fst (server_iter cfd s e) = s'" and ex: "snd (server_iter cfd s e) = Some x"
        by (simp_all add: echo_loop_step del: echo_loop.simps)
      have br: "bytes_received s' = recv_rv (recv_out e)"
        using server_iter_fields(1) [of cfd s e] st by simp
      have lst: "last (out s') =
          (if recv_rv (recv_out e) = 0 then Stdout (''Client disconnected'' @ NL)
           else if recv_rv (recv_out e) < 0 then Perror ''ERROR: Receive failed''
           else if send_r e < 0 then Perror ''ERROR: Send failed''
           else last (out s'))"
        using st [symmetric]
        by (simp add: server_iter_def recv_call_eq Let_def)
      show ?thesis
        using ex br lst unfolding server_iter_exit
        by (cases x) (auto split: if_splits)
    qed
  qed
qed

lemma echo_loop_leaves:
  "running s \<noteq> 0 \<Longrightarrow>
   echo_loop cfd s (e # es) =
     (if recv_rv (recv_out e) = 0 then (fst (server_iter cfd s e), PeerClosed)
      else if recv_rv (recv_out e) < 0 then (fst (server_iter cfd s e), RecvFailed)
      else if send_r e < 0 then (fst (server_iter cfd s e), SendFailed)
      else echo_loop cfd (fst (server_iter cfd s e)) es)"
  by (simp add: echo_loop_step server_iter_exit del: echo_loop.simps)

lemma feed_echoed:
  "m \<noteq> [] \<Longrightarrow> length m \<le> 1023 \<Longrightarrow> echoed (feed m)"
  by (simp add: echoed_def feed_def recv_rv_cases recv_data_def BUFFER_SIZE_def)

lemma feed_data: "length m \<le> 1023 \<Longrightarrow> recv_data (recv_out (feed m)) = m"
  by (simp add: feed_def recv_data_def BUFFER_SIZE_def)

lemma quiet_start_fields [simp]:
  "socket_r (quiet_start es) = 3" "setsockopt_r (quiet_start es) = 0" "bind_r (quiet_start es) = 0"
  "listen_r (quiet_start es) = 0" "accept_r (quiet_start es) = 4" "sig_startup (quiet_start es) = []"
  "iters (quiet_start es) = es"
  by (simp_all add: quiet_start_def)

lemma hangup_fields [simp]: "recv_rv (recv_out hangup) = 0" "sig_in_recv hangup = []"
  by (simp_all add: hangup_def recv_rv_def)

lemma server_main_sends_chunks:
  "sends_of (fst (server_main argv env)) = chunks_read (fst (server_main argv env))"
proof (cases "int (length argv) \<noteq> 2 \<or> socket_r env < 0 \<or> setsockopt_r env < 0 \<or> bind_r env < 0
     \<or> listen_r env < 0 \<or> accept_r env < 0")
  case True
  from server_main_failed [OF this] show ?thesis
    by (simp add: chunks_read_def)
next
  case False
  let ?s0 = "deliver (sig_startup env) (server_init env)"
  obtain s x where lp: "echo_loop (accept_r env) ?s0 (iters env) = (s, x)"
    by (cases "echo_loop (accept_r env) ?s0 (iters env)")
  from False have ok: "int (length argv) = 2" "0 \<le> socket_r env" "0 \<le> setsockopt_r env"
    "0 \<le> bind_r env" "0 \<le> listen_r env" "0 \<le> accept_r env"
    by simp_all
  note m = server_main_started [OF ok lp]
  have "sends_of (out ?s0) = chunks_read (out ?s0)"
    by (simp add: chunks_read_def)
  from echo_loop_echoes [OF this, of "accept_r env" "iters env"] lp
  have "sends_of (out s) = chunks_read (out s)" by simp
  then show ?thesis
    by (simp add: m(1) chunks_read_def m(2))
qed

lemma echo_session_id:
  assumes "\<forall>m\<in>set ms. m \<noteq> [] \<and> length m \<le> 1023"
  shows "echo_session ms = ms"
proof -
  let ?env = "quiet_start (map feed ms @ [hangup])"
  let ?s0 = "deliver (sig_startup ?env) (server_init ?env)"
  have pre: "\<forall>p\<in>set (map feed ms). echoed p"
    using assms by (auto simp add: feed_echoed)
  have r0: "running ?s0 \<noteq> 0" by simp
  have run: "echo_loop 4 ?s0 (map feed ms @ [hangup]) =
      echo_loop 4 (run_iters 4 ?s0 (map feed ms)) [hangup]"
    using r0 pre by (rule echo_loop_run)
  note f = run_iters_fields [OF pre, of 4 ?s0]
  from f r0 have r1: "running (run_iters 4 ?s0 (map feed ms)) \<noteq> 0" by simp
  have lp: "echo_loop (accept_r ?env) ?s0 (iters ?env) =
      (fst (server_iter 4 (run_iters 4 ?s0 (map feed ms)) hangup), PeerClosed)"
    using run echo_loop_leaves [OF r1, of 4 hangup "[]"] by simp
  have "sends_of (fst (server_main [''server'', ''8080''] ?env)) =
      sends_of (out (fst (server_iter 4 (run_iters 4 ?s0 (map feed ms)) hangup)))"
    by (rule server_main_started(1) [OF _ _ _ _ _ _ lp]) simp_all
  also have "\<dots> = map (\<lambda>e. recv_data (recv_out e)) (map feed ms)"
    using f by (simp add: server_iter_sends)
  also have "\<dots> = ms"
    using assms by (simp add: feed_data map_idI)
  finally show ?thesis by (simp add: echo_session_def)
qed

subsection \<open>The echo\<close>

lemma client_against_echo:
  "sends_of (fst (client_main [''client'', ''localhost'', ''8080'']
                    (connected (map (\<lambda>r. exchange_ok r r) five_messages)))) = five_messages
   \<and> map snd (recvs_of (fst (client_main [''client'', ''localhost'', ''8080'']
                    (connected (map (\<lambda>r. exchange_ok r r) five_messages))))) = five_messages"
proof -
  let ?env = "connected (map (\<lambda>r. exchange_ok r r) five_messages)"
  obtain s x where lp: "client_loop (socket_rc ?env) (client_init ?env) (exchanges ?env) = (s, x)"
    by (cases "client_loop (socket_rc ?env) (client_init ?env) (exchanges ?env)")
  have s: "s = fst (client_loop (socket_rc ?env) (client_init ?env) (exchanges ?env))"
    using lp by simp
  have m: "sends_of (fst (client_main [''client'', ''localhost'', ''8080''] ?env)) = sends_of (out_c s)"
     "recvs_of (fst (client_main [''client'', ''localhost'', ''8080''] ?env)) = recvs_of (out_c s)"
    by (rule client_main_started [OF _ _ _ _ lp]; simp add: connected_def)+
  have ex: "exchanges ?env = map (\<lambda>r. exchange_ok r r) five_messages"
    by (simp add: connected_def)
  have tw: "takeWhile completed (map (\<lambda>r. exchange_ok r r) five_messages) =
      map (\<lambda>r. exchange_ok r r) five_messages"
    by (simp add: five_messages_def exchange_ok_def completed_def recv_rv_cases)
  have tw2: "takeWhile (\<lambda>e. 0 \<le> x_send_r e) (map (\<lambda>r. exchange_ok r r) five_messages) =
      map (\<lambda>r. exchange_ok r r) five_messages"
    by (simp add: five_messages_def exchange_ok_def)
  have len: "length five_messages = 5" by (simp add: five_messages_def)
  have "sends_of (out_c s) = map (\<lambda>j. make_message (1 + int j)) [0..<5]"
    unfolding s ex by (simp add: client_loop_sends remaining_init tw len del: upt_Suc)
  then have A: "sends_of (out_c s) = five_messages"
    by (simp only: make_message_five)
  have "map snd (recvs_of (out_c s)) =
      map (\<lambda>e. recv_data (x_recv e)) (map (\<lambda>r. exchange_ok r r) five_messages)"
    unfolding s ex
    by (simp add: client_loop_recvs remaining_init tw len tw2 comp_def del: upt_Suc)
  also have "\<dots> = five_messages"
    by (simp add: five_messages_def exchange_ok_def recv_data_def BUFFER_SIZE_def)
  finally show ?thesis using A m by simp
qed

text \<open>
  C1. Every \<open>send\<close> of the server is called with exactly the bytes a positive-length
  \<open>recv\<close> stored, and every such chunk is sent once, in the order read: the payloads
  sent are the chunks read. A read that returns \<open>n > 0\<close> stored \<open>n\<close> bytes. So a server
  that is fed the messages \<open>ms\<close> one per read sends back \<open>ms\<close>, and the client run against
  the echo of its own five messages receives them back in order.
\<close>

theorem server_echo_byte_identical:
  "sends_of (fst (server_main argv env)) = chunks_read (fst (server_main argv env))
   \<and> (0 < recv_rv (recv_out e) \<longrightarrow>
        int (length (recv_data (recv_out e))) = recv_rv (recv_out e)
      \<and> sends_of (out (fst (server_iter cfd s e))) = sends_of (out s) @ [recv_data (recv_out e)])
   \<and> ((\<forall>m\<in>set ms. m \<noteq> [] \<and> length m \<le> 1023) \<longrightarrow> echo_session ms = ms)
   \<and> sends_of (fst (client_main [''client'', ''localhost'', ''8080'']
         (connected (map (\<lambda>r. exchange_ok r r) (echo_session five_messages))))) = five_messages
   \<and> map snd (recvs_of (fst (client_main [''client'', ''localhost'', ''8080'']
         (connected (map (\<lambda>r. exchange_ok r r) (echo_session five_messages)))))) = five_messages"
proof -
  have "\<forall>m\<in>set five_messages. m \<noteq> [] \<and> length m \<le> 1023"
    by (simp add: five_messages_def)
  then have "echo_session five_messages = five_messages"
    by (rule echo_session_id)
  then show ?thesis
    using server_main_sends_chunks [of argv env] recv_rv_pos [of "recv_out e"]
      server_iter_sends [of cfd s e] echo_session_id [of ms] client_against_echo
    by simp
qed

theorem server_echo_byte_identical_witness:
  "sends_of (fst (server_main [''server'', ''8080''] (quiet_start [feed ''ab'', hangup]))) =
     chunks_read (fst (server_main [''server'', ''8080''] (quiet_start [feed ''ab'', hangup])))
   \<and> int (length (recv_data (recv_out (feed ''ab'')))) = 2
   \<and> sends_of (out (fst (server_iter 4 (server_init (quiet_start [])) (feed ''ab'')))) = [''ab'']
   \<and> echo_session [''ab'', ''c''] = [''ab'', ''c'']"
  using server_echo_byte_identical [of "[''server'', ''8080'']" "quiet_start [feed ''ab'', hangup]"
          "feed ''ab''" 4 "server_init (quiet_start [])" "[''ab'', ''c'']"]
  by (simp add: feed_def recv_rv_cases recv_data_def BUFFER_SIZE_def)

subsection \<open>How the loop of the server ends\<close>

lemma feed_fields [simp]:
  "sig_in_recv (feed m) = []" "sig_after (feed m) = []" "send_r (feed m) = int (length m)"
  "recv_out (feed m) = RecvBytes m"
  by (simp_all add: feed_def)

lemma recv_bytes_short [simp]:
  "length m \<le> 1023 \<Longrightarrow> recv_rv (RecvBytes m) = int (length m)"
  "length m \<le> 1023 \<Longrightarrow> recv_data (RecvBytes m) = m"
  by (simp_all add: recv_rv_def recv_data_def BUFFER_SIZE_def)

lemma peer_close_count:
  assumes ok: "int (length argv) = 2" "0 \<le> socket_r env" "0 \<le> setsockopt_r env"
      "0 \<le> bind_r env" "0 \<le> listen_r env" "0 \<le> accept_r env"
    and quiet: "sig_startup env = []"
    and its: "iters env = pre @ e # post"
    and pre: "\<forall>p\<in>set pre. echoed p"
    and e: "recv_rv (recv_out e) = 0"
  shows "snd (server_main argv env) = Some 0"
    and "recvs_of (fst (server_main argv env)) =
           map (\<lambda>p. (recv_rv (recv_out p), recv_data (recv_out p))) pre @ [(0, [])]"
    and "Stdout (''Total messages: '' @ show_int (int (length pre)) @ NL)
           \<in> set (fst (server_main argv env))"
proof -
  let ?s0 = "deliver (sig_startup env) (server_init env)"
  let ?s1 = "run_iters (accept_r env) ?s0 pre"
  let ?s2 = "fst (server_iter (accept_r env) ?s1 e)"
  have r0: "running ?s0 \<noteq> 0" using quiet by simp
  note f = run_iters_fields [OF pre, of "accept_r env" ?s0]
  from f r0 have r1: "running ?s1 \<noteq> 0" by simp
  have lp: "echo_loop (accept_r env) ?s0 (iters env) = (?s2, PeerClosed)"
    using echo_loop_run [OF r0 pre, of "accept_r env" "e # post"]
      echo_loop_leaves [OF r1, of "accept_r env" e post] e its
    by simp
  note m = server_main_started [OF ok lp]
  show "snd (server_main argv env) = Some 0"
    using m(4) by simp
  have "recv_data (recv_out e) = []"
    using e by (simp add: recv_data_nonpos)
  then show "recvs_of (fst (server_main argv env)) =
           map (\<lambda>p. (recv_rv (recv_out p), recv_data (recv_out p))) pre @ [(0, [])]"
    using m(2) f e quiet by (simp add: server_iter_recvs)
  have "message_count ?s2 = int (length pre)"
    using f e by (simp add: server_iter_fields)
  then show "Stdout (''Total messages: '' @ show_int (int (length pre)) @ NL)
           \<in> set (fst (server_main argv env))"
    using m(5) by simp
qed

text \<open>
  C3 (as amended). The loop is left in exactly four ways, told apart by the state it
  leaves: the flag found cleared at the test of the loop condition, a read that returned
  0 (reported as "Client disconnected"), a read that returned a negative value
  (reported through \<open>perror\<close>), or a \<open>send\<close> that returned a negative value after a
  positive read (also reported through \<open>perror\<close>); otherwise the server is still in the
  loop. When the peer closes after \<open>k\<close> echoed chunks, the read that returns 0 is the
  last one and the summary reports \<open>k\<close>.
\<close>

theorem echo_loop_exits:
  "(echo_loop cfd s es = (s', x) \<longrightarrow>
      (case x of
         FlagCleared \<Rightarrow> running s' = 0
       | PeerClosed \<Rightarrow> bytes_received s' = 0 \<and> last (out s') = Stdout (''Client disconnected'' @ NL)
       | RecvFailed \<Rightarrow> bytes_received s' < 0 \<and> last (out s') = Perror ''ERROR: Receive failed''
       | SendFailed \<Rightarrow> 0 < bytes_received s' \<and> last (out s') = Perror ''ERROR: Send failed''
       | BlockedInRecv \<Rightarrow> running s' \<noteq> 0))
   \<and> (running s = 0 \<longrightarrow> echo_loop cfd s es = (s, FlagCleared))
   \<and> (running s \<noteq> 0 \<longrightarrow>
        echo_loop cfd s (e # es) =
          (if recv_rv (recv_out e) = 0 then (fst (server_iter cfd s e), PeerClosed)
           else if recv_rv (recv_out e) < 0 then (fst (server_iter cfd s e), RecvFailed)
           else if send_r e < 0 then (fst (server_iter cfd s e), SendFailed)
           else echo_loop cfd (fst (server_iter cfd s e)) es))
   \<and> (int (length argv) = 2 \<and> 0 \<le> socket_r env \<and> 0 \<le> setsockopt_r env \<and> 0 \<le> bind_r env
        \<and> 0 \<le> listen_r env \<and> 0 \<le> accept_r env \<and> sig_startup env = []
        \<and> iters env = pre @ c # post \<and> (\<forall>p\<in>set pre. echoed p) \<and> recv_rv (recv_out c) = 0 \<longrightarrow>
          snd (server_main argv env) = Some 0
        \<and> recvs_of (fst (server_main argv env)) =
            map (\<lambda>p. (recv_rv (recv_out p), recv_data (recv_out p))) pre @ [(0, [])]
        \<and> Stdout (''Total messages: '' @ show_int (int (length pre)) @ NL)
            \<in> set (fst (server_main argv env)))"
  using echo_loop_exit_state [of cfd s es s' x] echo_loop_flag [of s cfd es]
    echo_loop_leaves [of s cfd e es] peer_close_count [of argv env pre c post]
  by blast

theorem echo_loop_exits_witness:
  "snd (server_main [''server'', ''8080''] (quiet_start [feed ''ab'', feed ''c'', hangup, feed ''d''])) = Some 0
   \<and> recvs_of (fst (server_main [''server'', ''8080'']
         (quiet_start [feed ''ab'', feed ''c'', hangup, feed ''d'']))) = [(2, ''ab''), (1, ''c''), (0, [])]
   \<and> Stdout (''Total messages: 2'' @ NL)
        \<in> set (fst (server_main [''server'', ''8080'']
              (quiet_start [feed ''ab'', feed ''c'', hangup, feed ''d''])))
   \<and> echo_loop 4 (server_init (quiet_start [])) [hangup] =
       (fst (server_iter 4 (server_init (quiet_start [])) hangup), PeerClosed)
   \<and> bytes_received (fst (server_iter 4 (server_init (quiet_start [])) hangup)) = 0
   \<and> echo_loop 4 (signal_handler 15 (server_init (quiet_start []))) [feed ''d''] =
       (signal_handler 15 (server_init (quiet_start [])), FlagCleared)"
proof -
  let ?s0 = "server_init (quiet_start [])"
  have lp: "echo_loop 4 ?s0 [hangup] = (fst (server_iter 4 ?s0 hangup), PeerClosed)"
    by (simp add: echo_loop_leaves del: echo_loop.simps)
  show ?thesis
    using lp
      echo_loop_exits [where cfd = 4 and s = ?s0 and es = "[hangup]"
        and s' = "fst (server_iter 4 ?s0 hangup)" and x = PeerClosed and e = hangup
        and argv = "[''server'', ''8080'']"
        and env = "quiet_start [feed ''ab'', feed ''c'', hangup, feed ''d'']"
        and pre = "[feed ''ab'', feed ''c'']" and c = hangup and post = "[feed ''d'']"]
      echo_loop_exits [where cfd = 4 and s = "signal_handler 15 ?s0" and es = "[feed ''d'']"
        and s' = "signal_handler 15 ?s0" and x = FlagCleared and e = hangup
        and argv = "[''server'', ''8080'']"
        and env = "quiet_start [feed ''ab'', feed ''c'', hangup, feed ''d'']"
        and pre = "[feed ''ab'', feed ''c'']" and c = hangup and post = "[feed ''d'']"]
    by (simp add: echoed_def show_int_def show_nat.simps del: echo_loop.simps)
qed

theorem echo_loop_three_exits_counterexample:
  "snd (echo_loop 4 (server_init (quiet_start []))
          [(feed ''hi'')\<lparr>send_r := - 1\<rparr>, feed ''more'']) = SendFailed
   \<and> bytes_received (fst (echo_loop 4 (server_init (quiet_start []))
          [(feed ''hi'')\<lparr>send_r := - 1\<rparr>, feed ''more''])) = 2
   \<and> running (fst (echo_loop 4 (server_init (quiet_start []))
          [(feed ''hi'')\<lparr>send_r := - 1\<rparr>, feed ''more''])) = 1
   \<and> snd (server_main [''server'', ''8080'']
          (quiet_start [(feed ''hi'')\<lparr>send_r := - 1\<rparr>, feed ''more''])) = Some 0
   \<and> recvs_of (fst (server_main [''server'', ''8080'']
          (quiet_start [(feed ''hi'')\<lparr>send_r := - 1\<rparr>, feed ''more'']))) = [(2, ''hi'')]"
  by (simp add: echo_loop_leaves server_main_ok server_iter_fields server_iter_running
        server_iter_exit server_iter_recvs server_cleanup_def del: echo_loop.simps)

subsection \<open>Signals\<close>

lemma echo_loop_signal_in_recv:
  assumes "running s \<noteq> 0" "sig_in_recv e \<noteq> []"
  shows "echo_loop cfd s (e # es) =
           (fst (server_iter cfd s e),
            case snd (server_iter cfd s e) of Some x \<Rightarrow> x | None \<Rightarrow> FlagCleared)"
proof (cases "snd (server_iter cfd s e)")
  case None
  have "running (fst (server_iter cfd s e)) = 0"
    using assms(2) by (simp add: server_iter_running)
  then have "echo_loop cfd (fst (server_iter cfd s e)) es = (fst (server_iter cfd s e), FlagCleared)"
    by (rule echo_loop_flag)
  with None assms(1) show ?thesis
    by (simp add: echo_loop_step del: echo_loop.simps)
next
  case (Some x)
  with assms(1) show ?thesis
    by (simp add: echo_loop_step del: echo_loop.simps)
qed

lemma echo_loop_signal_after:
  assumes "running s \<noteq> 0" "sig_after e \<noteq> []" "0 < recv_rv (recv_out e)" "0 \<le> send_r e"
  shows "echo_loop cfd s (e # es) = (fst (server_iter cfd s e), FlagCleared)"
proof -
  have none: "snd (server_iter cfd s e) = None"
    using assms(3,4) by (simp add: server_iter_exit)
  then have "running (fst (server_iter cfd s e)) = 0"
    using assms(2) by (simp add: server_iter_running)
  then have "echo_loop cfd (fst (server_iter cfd s e)) es = (fst (server_iter cfd s e), FlagCleared)"
    by (rule echo_loop_flag)
  with none assms(1) show ?thesis
    by (simp add: echo_loop_step del: echo_loop.simps)
qed

lemma server_shutdown_clean:
  assumes ok: "int (length argv) = 2" "0 \<le> socket_r env" "0 \<le> setsockopt_r env"
      "0 \<le> bind_r env" "0 \<le> listen_r env" "0 \<le> accept_r env"
    and ex: "snd (server_main argv env) = Some 0"
  shows "closes_of (fst (server_main argv env)) = [accept_r env, socket_r env]"
    and "last (fst (server_main argv env)) = Stdout (''Server shutdown complete'' @ NL)"
    and "Stdout (''Total messages: ''
                 @ show_int (int (length (chunks_read (fst (server_main argv env))))) @ NL)
           \<in> set (fst (server_main argv env))"
proof -
  let ?s0 = "deliver (sig_startup env) (server_init env)"
  obtain s x where lp: "echo_loop (accept_r env) ?s0 (iters env) = (s, x)"
    by (cases "echo_loop (accept_r env) ?s0 (iters env)")
  note m = server_main_started [OF ok lp]
  from ex m(4) have x: "x \<noteq> BlockedInRecv"
    by (simp split: if_splits)
  have s: "s = fst (echo_loop (accept_r env) ?s0 (iters env))"
    using lp by simp
  have "closes_of (out s) = closes_of (out ?s0)"
    unfolding s by (rule echo_loop_closes)
  then show "closes_of (fst (server_main argv env)) = [accept_r env, socket_r env]"
    using m(3) x by simp
  show "last (fst (server_main argv env)) = Stdout (''Server shutdown complete'' @ NL)"
    using m(6) x by simp
  have "message_count ?s0 = int (length (chunks_read (out ?s0)))"
    by (simp add: chunks_read_def)
  from echo_loop_count [OF this, of "accept_r env" "iters env"]
  have "message_count s = int (length (chunks_read (out s)))"
    unfolding s .
  moreover have "chunks_read (fst (server_main argv env)) = chunks_read (out s)"
    by (simp add: chunks_read_def m(2))
  ultimately show "Stdout (''Total messages: ''
                 @ show_int (int (length (chunks_read (fst (server_main argv env))))) @ NL)
           \<in> set (fst (server_main argv env))"
    using m(5) x by simp
qed

lemma signal_before_loop:
  assumes ok: "int (length argv) = 2" "0 \<le> socket_r env" "0 \<le> setsockopt_r env"
      "0 \<le> bind_r env" "0 \<le> listen_r env" "0 \<le> accept_r env"
    and sg: "sig_startup env \<noteq> []"
  shows "snd (server_main argv env) = Some 0" and "recvs_of (fst (server_main argv env)) = []"
proof -
  let ?s0 = "deliver (sig_startup env) (server_init env)"
  have "running ?s0 = 0" using sg by simp
  then have lp: "echo_loop (accept_r env) ?s0 (iters env) = (?s0, FlagCleared)"
    by (rule echo_loop_flag)
  note m = server_main_started [OF ok lp]
  show "snd (server_main argv env) = Some 0" using m(4) by simp
  show "recvs_of (fst (server_main argv env)) = []" using m(2) by simp
qed

text \<open>
  C9 (as amended). The handler clears \<open>running\<close> at every delivery and nothing sets it
  again. The loop reads the flag only when it tests its condition. A signal delivered
  between that test and the return of \<open>recv\<close> leaves the read to complete and its
  result to be handled (a chunk is echoed), and no further read follows. A signal
  delivered after \<open>recv\<close> has returned, or before the loop is entered, ends the loop at
  the next test with no further read. While the read does not return the server stays
  in it. Whenever the server exits it has closed the client socket and then the
  listening socket, printed the statistics, and printed the last line.
\<close>

theorem signal_shutdown:
  "running (signal_handler signum s) = 0
   \<and> (running s = 0 \<longrightarrow> running (deliver sigs s) = 0 \<and> echo_loop cfd s es = (s, FlagCleared))
   \<and> (running s \<noteq> 0 \<and> sig_in_recv e \<noteq> [] \<longrightarrow>
        echo_loop cfd s (e # es) =
          (fst (server_iter cfd s e),
           case snd (server_iter cfd s e) of Some x \<Rightarrow> x | None \<Rightarrow> FlagCleared)
      \<and> recvs_of (out (fst (echo_loop cfd s (e # es)))) =
          recvs_of (out s) @ [(recv_rv (recv_out e), recv_data (recv_out e))])
   \<and> (running s \<noteq> 0 \<and> sig_after e \<noteq> [] \<and> 0 < recv_rv (recv_out e) \<and> 0 \<le> send_r e \<longrightarrow>
        echo_loop cfd s (e # es) = (fst (server_iter cfd s e), FlagCleared))
   \<and> (running s \<noteq> 0 \<longrightarrow> echo_loop cfd s [] = (s, BlockedInRecv))
   \<and> (int (length argv) = 2 \<and> 0 \<le> socket_r env \<and> 0 \<le> setsockopt_r env \<and> 0 \<le> bind_r env
        \<and> 0 \<le> listen_r env \<and> 0 \<le> accept_r env \<and> sig_startup env \<noteq> [] \<longrightarrow>
          snd (server_main argv env) = Some 0 \<and> recvs_of (fst (server_main argv env)) = [])
   \<and> (int (length argv) = 2 \<and> 0 \<le> socket_r env \<and> 0 \<le> setsockopt_r env \<and> 0 \<le> bind_r env
        \<and> 0 \<le> listen_r env \<and> 0 \<le> accept_r env \<and> snd (server_main argv env) = Some 0 \<longrightarrow>
          closes_of (fst (server_main argv env)) = [accept_r env, socket_r env]
        \<and> last (fst (server_main argv env)) = Stdout (''Server shutdown complete'' @ NL)
        \<and> Stdout (''Total messages: ''
                   @ show_int (int (length (chunks_read (fst (server_main argv env))))) @ NL)
            \<in> set (fst (server_main argv env)))"
proof -
  have in_recv: "recvs_of (out (fst (echo_loop cfd s (e # es)))) =
          recvs_of (out s) @ [(recv_rv (recv_out e), recv_data (recv_out e))]"
    if "running s \<noteq> 0" "sig_in_recv e \<noteq> []"
    using echo_loop_signal_in_recv [OF that, of cfd es] by (simp add: server_iter_recvs)
  show ?thesis
    using echo_loop_flag [of s cfd es] echo_loop_signal_in_recv [of s e cfd es] in_recv
      echo_loop_signal_after [of s e cfd es] signal_before_loop [of argv env]
      server_shutdown_clean [of argv env]
    by simp
qed

theorem signal_shutdown_witness:
  "echo_loop 4 (signal_handler 15 (server_init (quiet_start []))) [feed ''more''] =
     (signal_handler 15 (server_init (quiet_start [])), FlagCleared)
   \<and> recvs_of (out (fst (echo_loop 4 (server_init (quiet_start []))
         [(feed ''hi'')\<lparr>sig_in_recv := [15]\<rparr>, feed ''more'']))) = [(2, ''hi'')]
   \<and> echo_loop 4 (server_init (quiet_start [])) [(feed ''hi'')\<lparr>sig_after := [15]\<rparr>, feed ''more''] =
       (fst (server_iter 4 (server_init (quiet_start [])) ((feed ''hi'')\<lparr>sig_after := [15]\<rparr>)),
        FlagCleared)
   \<and> snd (server_main [''server'', ''8080''] ((quiet_start [feed ''hi''])\<lparr>sig_startup := [2]\<rparr>)) = Some 0
   \<and> recvs_of (fst (server_main [''server'', ''8080'']
         ((quiet_start [feed ''hi''])\<lparr>sig_startup := [2]\<rparr>))) = []
   \<and> closes_of (fst (server_main [''server'', ''8080'']
         (quiet_start [(feed ''hi'')\<lparr>sig_in_recv := [15]\<rparr>, feed ''more'']))) = [4, 3]"
proof -
  have h: "snd (server_main [''server'', ''8080'']
      (quiet_start [(feed ''hi'')\<lparr>sig_in_recv := [15]\<rparr>, feed ''more''])) = Some 0"
    by (simp add: server_main_ok echo_loop_signal_in_recv server_iter_exit
          del: echo_loop.simps)
  show ?thesis
    using h
      signal_shutdown [of 15 "server_init (quiet_start [])" "[2]" 4 "[feed ''more'']"
        "(feed ''hi'')\<lparr>sig_in_recv := [15]\<rparr>" "[''server'', ''8080'']"
        "quiet_start [(feed ''hi'')\<lparr>sig_in_recv := [15]\<rparr>, feed ''more'']"]
      signal_shutdown [of 15 "signal_handler 15 (server_init (quiet_start []))" "[2]" 4
        "[feed ''more'']" "(feed ''hi'')\<lparr>sig_after := [15]\<rparr>" "[''server'', ''8080'']"
        "(quiet_start [feed ''hi''])\<lparr>sig_startup := [2]\<rparr>"]
      signal_shutdown [of 15 "server_init (quiet_start [])" "[2]" 4 "[feed ''more'']"
        "(feed ''hi'')\<lparr>sig_after := [15]\<rparr>" "[''server'', ''8080'']"
        "quiet_start []"]
    by (simp add: server_iter_recvs del: echo_loop.simps)
qed

theorem signal_after_read_counterexample:
  "recvs_of (fst (server_main [''server'', ''8080'']
      (quiet_start [(feed ''hi'')\<lparr>sig_after := [15]\<rparr>, feed ''more'']))) = [(2, ''hi'')]
   \<and> snd (server_main [''server'', ''8080'']
      (quiet_start [(feed ''hi'')\<lparr>sig_after := [15]\<rparr>, feed ''more''])) = Some 0"
  by (simp add: server_main_ok echo_loop_signal_after server_iter_recvs server_cleanup_def
        del: echo_loop.simps)

subsection \<open>The buffer\<close>

lemma deliver_buffer_update: "deliver sigs (s\<lparr>buffer := b\<rparr>) = (deliver sigs s)\<lparr>buffer := b\<rparr>"
  by (induction sigs arbitrary: s) (simp_all add: signal_handler_def emit_def)

lemma server_main_buffer_indep: "server_main argv (env\<lparr>buffer0 := b\<rparr>) = server_main argv env"
proof -
  let ?s0 = "deliver (sig_startup env) (server_init env)"
  have init: "deliver (sig_startup env) (server_init (env\<lparr>buffer0 := b\<rparr>)) = ?s0\<lparr>buffer := b\<rparr>"
    by (simp add: server_init_def deliver_buffer_update [symmetric])
  obtain s x where lp: "echo_loop (accept_r env) ?s0 (iters env) = (s, x)"
    by (cases "echo_loop (accept_r env) ?s0 (iters env)")
  obtain s' x' where lp': "echo_loop (accept_r env) (?s0\<lparr>buffer := b\<rparr>) (iters env) = (s', x')"
    by (cases "echo_loop (accept_r env) (?s0\<lparr>buffer := b\<rparr>) (iters env)")
  from echo_loop_buffer_indep [where cfd = "accept_r env" and s = ?s0 and b = b and es = "iters env"] lp lp'
  have eq: "out s' = out s" "message_count s' = message_count s" "x' = x"
    by simp_all
  show ?thesis
    using lp lp' eq
    by (cases x) (simp_all add: server_main_def Let_def init server_cleanup_def emit_def)
qed

lemma client_iter_buffer_indep:
  "out_c (fst (client_iter fd (c\<lparr>buffer_c := b\<rparr>) x)) = out_c (fst (client_iter fd c x))"
  "snd (client_iter fd (c\<lparr>buffer_c := b\<rparr>) x) = snd (client_iter fd c x)"
  "completed x \<Longrightarrow> client_iter fd (c\<lparr>buffer_c := b\<rparr>) x = client_iter fd c x"
  by (simp_all add: client_iter_def recv_call_eq Let_def completed_def)

lemma client_loop_buffer_indep:
  "out_c (fst (client_loop fd (c\<lparr>buffer_c := b\<rparr>) xs)) = out_c (fst (client_loop fd c xs))
   \<and> i_c (fst (client_loop fd (c\<lparr>buffer_c := b\<rparr>) xs)) = i_c (fst (client_loop fd c xs))
   \<and> snd (client_loop fd (c\<lparr>buffer_c := b\<rparr>) xs) = snd (client_loop fd c xs)"
proof (cases xs)
  case Nil
  then show ?thesis by simp
next
  case (Cons x xs')
  show ?thesis
  proof (cases "i_c c \<le> NUM_MESSAGES")
    case False
    with Cons show ?thesis by simp
  next
    case True
    then have True': "i_c (c\<lparr>buffer_c := b\<rparr>) \<le> NUM_MESSAGES" by simp
    show ?thesis
      unfolding Cons client_loop_step [OF True] client_loop_step [OF True']
      by (simp add: client_iter_buffer_indep client_iter_fields)
  qed
qed

lemma client_main_buffer_indep:
  "client_main argv (env\<lparr>buffer0_c := b\<rparr>) = client_main argv env"
proof -
  let ?c0 = "client_init env"
  have init: "client_init (env\<lparr>buffer0_c := b\<rparr>) = ?c0\<lparr>buffer_c := b\<rparr>"
    by (simp add: client_init_def)
  obtain s x where lp: "client_loop (socket_rc env) ?c0 (exchanges env) = (s, x)"
    by (cases "client_loop (socket_rc env) ?c0 (exchanges env)")
  obtain s' x' where lp': "client_loop (socket_rc env) (?c0\<lparr>buffer_c := b\<rparr>) (exchanges env) = (s', x')"
    by (cases "client_loop (socket_rc env) (?c0\<lparr>buffer_c := b\<rparr>) (exchanges env)")
  from client_loop_buffer_indep [where fd = "socket_rc env" and c = ?c0 and b = b and xs = "exchanges env"] lp lp'
  have eq: "out_c s' = out_c s" "i_c s' = i_c s" "x' = x"
    by simp_all
  show ?thesis
    using lp lp' eq
    by (cases x) (simp_all add: client_main_def Let_def init client_cleanup_def emit_c_def)
qed

lemma buffer_after_read:
  "store (recv_data r) (memset_zero BUFFER_SIZE) =
     recv_data r @ replicate (1024 - length (recv_data r)) NUL"
  using recv_data_length [of r] by (rule store_memset)

text \<open>
  C7. Both loops zero the whole buffer before each \<open>recv\<close>: after the read the buffer
  holds the bytes just stored followed by NULs only, whatever it held before, so an
  empty read leaves it all NUL and the longest read still leaves the last byte NUL.
  Nothing a run prints, sends or returns depends on what the buffer held earlier: not
  within an iteration, not across the loop, and not on the contents of the
  uninitialised array at the start.
\<close>

theorem buffer_cleared_before_read:
  "buffer (fst (server_iter cfd s e)) =
     recv_data (recv_out e) @ replicate (1024 - length (recv_data (recv_out e))) NUL
   \<and> server_iter cfd (s\<lparr>buffer := b\<rparr>) e = server_iter cfd s e
   \<and> out (fst (echo_loop cfd (s\<lparr>buffer := b\<rparr>) es)) = out (fst (echo_loop cfd s es))
   \<and> snd (echo_loop cfd (s\<lparr>buffer := b\<rparr>) es) = snd (echo_loop cfd s es)
   \<and> server_main argv (env\<lparr>buffer0 := b\<rparr>) = server_main argv env
   \<and> (0 \<le> x_send_r x \<longrightarrow>
        buffer_c (fst (client_iter fd c x)) =
          recv_data (x_recv x) @ replicate (1024 - length (recv_data (x_recv x))) NUL)
   \<and> out_c (fst (client_iter fd (c\<lparr>buffer_c := b\<rparr>) x)) = out_c (fst (client_iter fd c x))
   \<and> out_c (fst (client_loop fd (c\<lparr>buffer_c := b\<rparr>) xs)) = out_c (fst (client_loop fd c xs))
   \<and> snd (client_loop fd (c\<lparr>buffer_c := b\<rparr>) xs) = snd (client_loop fd c xs)
   \<and> client_main argv' (cenv\<lparr>buffer0_c := b\<rparr>) = client_main argv' cenv"
  using echo_loop_buffer_indep [where cfd = cfd and s = s and b = b and es = es]
    server_main_buffer_indep [where argv = argv and env = env and b = b]
    client_loop_buffer_indep [where fd = fd and c = c and b = b and xs = xs]
    client_main_buffer_indep [where argv = argv' and env = cenv and b = b]
  by (simp add: server_iter_fields server_iter_buffer_indep client_iter_fields
        client_iter_buffer_indep buffer_after_read)

theorem buffer_cleared_before_read_witness:
  "buffer (fst (server_iter 4 ((server_init (quiet_start []))\<lparr>buffer := replicate 1024 (CHR ''x'')\<rparr>)
                  (feed ''hi''))) = ''hi'' @ replicate 1022 NUL
   \<and> buffer (fst (server_iter 4 ((server_init (quiet_start []))\<lparr>buffer := replicate 1024 (CHR ''x'')\<rparr>)
                  hangup)) = replicate 1024 NUL
   \<and> buffer_c (fst (client_iter 3 ((client_init (connected []))\<lparr>buffer_c := replicate 1024 (CHR ''x'')\<rparr>)
                  (exchange_ok ''abc'' ''hi''))) = ''hi'' @ replicate 1022 NUL
   \<and> last (buffer (fst (server_iter 4 (server_init (quiet_start []))
                  (feed (replicate 2000 (CHR ''a'')))))) = NUL"
  using buffer_cleared_before_read [where cfd = 4
      and s = "(server_init (quiet_start []))\<lparr>buffer := replicate 1024 (CHR ''x'')\<rparr>"
      and e = "feed ''hi''" and x = "exchange_ok ''abc'' ''hi''" and fd = 3
      and c = "(client_init (connected []))\<lparr>buffer_c := replicate 1024 (CHR ''x'')\<rparr>"]
    buffer_cleared_before_read [where cfd = 4
      and s = "(server_init (quiet_start []))\<lparr>buffer := replicate 1024 (CHR ''x'')\<rparr>"
      and e = hangup and x = "exchange_ok ''abc'' ''hi''"]
    buffer_cleared_before_read [where cfd = 4 and s = "server_init (quiet_start [])"
      and e = "feed (replicate 2000 (CHR ''a''))" and x = "exchange_ok ''abc'' ''hi''"]
  by (simp add: feed_def hangup_def exchange_ok_def recv_data_def BUFFER_SIZE_def)

subsection \<open>The size of a read\<close>

lemma client_iter_bytes_received:
  "0 \<le> x_send_r x \<Longrightarrow> bytes_received_c (fst (client_iter fd c x)) = recv_rv (x_recv x)"
  by (simp add: client_iter_def recv_call_eq Let_def)

text \<open>
  C8 (as amended). Both loops pass \<open>BUFFER_SIZE - 1\<close> to \<open>recv\<close>: a single read returns
  at most 1023 bytes, and returns 1023 when that many or more are on offer, so that
  the last byte of the 1024-byte buffer stays NUL.
\<close>

theorem read_size_bound:
  "bytes_received (fst (server_iter cfd s e)) \<le> BUFFER_SIZE - 1
   \<and> bytes_received (fst (server_iter cfd s e)) \<le> 1023
   \<and> (0 \<le> x_send_r x \<longrightarrow> bytes_received_c (fst (client_iter fd c x)) \<le> 1023)
   \<and> (1023 \<le> length bs \<longrightarrow>
        bytes_received (fst (server_iter cfd s (e\<lparr>recv_out := RecvBytes bs\<rparr>))) = 1023
      \<and> (0 \<le> x_send_r x \<longrightarrow>
           bytes_received_c (fst (client_iter fd c (x\<lparr>x_recv := RecvBytes bs\<rparr>))) = 1023))
   \<and> length (buffer (fst (server_iter cfd s e))) = 1024
   \<and> buffer (fst (server_iter cfd s e)) ! 1023 = NUL"
proof -
  have full: "recv_rv (RecvBytes bs) = 1023" if "1023 \<le> length bs"
    using that by (simp add: recv_rv_def BUFFER_SIZE_def)
  have len: "length (recv_data (recv_out e)) \<le> 1023"
    by (rule recv_data_length)
  have nul: "(recv_data (recv_out e) @ replicate (1024 - length (recv_data (recv_out e))) NUL) ! 1023 = NUL"
    using len by (simp add: nth_append)
  have buf: "buffer (fst (server_iter cfd s e)) =
      recv_data (recv_out e) @ replicate (1024 - length (recv_data (recv_out e))) NUL"
    by (simp add: server_iter_fields buffer_after_read)
  have br: "bytes_received (fst (server_iter cfd s e')) = recv_rv (recv_out e')" for e'
    by (simp add: server_iter_fields)
  show ?thesis
    unfolding buf br
    using recv_rv_le [of "recv_out e"] recv_rv_le [of "x_recv x"] full len nul
    by (simp add: client_iter_bytes_received BUFFER_SIZE_def)
qed

theorem read_size_bound_witness:
  "bytes_received_c (fst (client_iter 3 (client_init (connected []))
       (exchange_ok ''abc'' (replicate 5000 (CHR ''a''))))) \<le> 1023
   \<and> bytes_received (fst (server_iter 4 (server_init (quiet_start []))
       ((feed ''hi'')\<lparr>recv_out := RecvBytes (replicate 1023 (CHR ''a''))\<rparr>))) = 1023
   \<and> bytes_received_c (fst (client_iter 3 (client_init (connected []))
       ((exchange_ok ''abc'' (replicate 5000 (CHR ''a'')))
          \<lparr>x_recv := RecvBytes (replicate 1023 (CHR ''a''))\<rparr>))) = 1023"
  using read_size_bound [where x = "exchange_ok ''abc'' (replicate 5000 (CHR ''a''))" and fd = 3
      and c = "client_init (connected [])" and bs = "replicate 1023 (CHR ''a'')" and cfd = 4
      and s = "server_init (quiet_start [])" and e = "feed ''hi''"]
  by (simp add: exchange_ok_def)

theorem read_size_counterexample:
  "bytes_received (fst (server_iter 4 (server_init (quiet_start []))
       (feed (replicate 1024 (CHR ''a''))))) = 1023
   \<and> bytes_received_c (fst (client_iter 3 (client_init (connected []))
       (exchange_ok ''Message 1 from client'' (replicate 1024 (CHR ''a''))))) = 1023"
  by (simp add: server_iter_fields client_iter_bytes_received exchange_ok_def recv_rv_def
        BUFFER_SIZE_def)

subsection \<open>The message counters\<close>

lemma send_rets_of_append [simp]: "send_rets_of (a @ b) = send_rets_of a @ send_rets_of b"
  by (induction a rule: send_rets_of.induct) simp_all

lemma send_rets_of_startup [simp]: "send_rets_of (server_startup argv env) = []"
  by (simp add: server_startup_def server_banner_def)

lemma client_summary:
  assumes "int (length argv) = 3" "host_found env" "0 \<le> socket_rc env" "0 \<le> connect_r env"
    and "snd (client_main argv env) = Some 0"
  shows "Stdout (''Messages sent: ''
                 @ show_int (int (length (takeWhile completed (take 5 (exchanges env))))) @ NL)
           \<in> set (fst (client_main argv env))"
proof -
  obtain s x where lp: "client_loop (socket_rc env) (client_init env) (exchanges env) = (s, x)"
    by (cases "client_loop (socket_rc env) (client_init env) (exchanges env)")
  note m = client_main_started [OF assms(1-4) lp]
  from assms(5) m(4) have "x \<noteq> Stalled" by (simp split: if_splits)
  moreover have "i_c s - 1 = int (length (takeWhile completed (take 5 (exchanges env))))"
    using client_loop_i [of "socket_rc env" "client_init env" "exchanges env"] lp
    by (simp add: remaining_init)
  ultimately show ?thesis using m(5) by simp
qed

lemma server_iter_out_pos:
  assumes "0 < recv_rv (recv_out e)"
  shows "out (fst (server_iter cfd s e)) =
     out s @ map sig_line (sig_in_recv e) @
     [CallRecv cfd (BUFFER_SIZE - 1) (recv_rv (recv_out e)) (recv_data (recv_out e)),
      Stdout (''[MSG '' @ show_int (message_count s + 1) @ ''] Received ''
              @ show_int (recv_rv (recv_out e)) @ '' bytes: ''
              @ c_string (store (recv_data (recv_out e)) (memset_zero BUFFER_SIZE)) @ NL),
      CallSend cfd (recv_data (recv_out e)) (send_r e)] @
     (if send_r e < 0 then [Perror ''ERROR: Send failed'']
      else Stdout (''[MSG '' @ show_int (message_count s + 1) @ ''] Echoed back to client'' @ NL)
           # map sig_line (sig_after e))"
  using assms recv_rv_pos_nat [OF assms]
  by (simp add: server_iter_def recv_call_eq Let_def take_store)

lemma server_iter_out_nonpos:
  assumes "recv_rv (recv_out e) \<le> 0"
  shows "out (fst (server_iter cfd s e)) =
     out s @ map sig_line (sig_in_recv e) @
     [CallRecv cfd (BUFFER_SIZE - 1) (recv_rv (recv_out e)) (recv_data (recv_out e)),
      if recv_rv (recv_out e) = 0 then Stdout (''Client disconnected'' @ NL)
      else Perror ''ERROR: Receive failed'']"
  using assms by (simp add: server_iter_def recv_call_eq Let_def)

lemma client_iter_out:
  "out_c (fst (client_iter fd c x)) =
     out_c c @
     [Stdout (''[MSG '' @ show_int (i_c c) @ ''] Sending: '' @ make_message (i_c c) @ NL),
      CallSend fd (make_message (i_c c)) (x_send_r x)] @
     (if x_send_r x < 0 then [Perror ''ERROR: Send failed'']
      else
        [Stdout (''[MSG '' @ show_int (i_c c) @ ''] Sent '' @ show_int (x_send_r x)
                 @ '' bytes'' @ NL),
         CallRecv fd (BUFFER_SIZE - 1) (recv_rv (x_recv x)) (recv_data (x_recv x))] @
        (if recv_rv (x_recv x) < 0 then [Perror ''ERROR: Receive failed'']
         else
           [Stdout (''[MSG '' @ show_int (i_c c) @ ''] Received echo: ''
                    @ c_string (store (recv_data (x_recv x)) (memset_zero BUFFER_SIZE))
                    @ '' ('' @ show_int (recv_rv (x_recv x)) @ '' bytes)'' @ NL),
            CallSleep 1]))"
  by (simp add: client_iter_def recv_call_eq Let_def)

lemma server_main_total:
  assumes ok: "int (length argv) = 2" "0 \<le> socket_r env" "0 \<le> setsockopt_r env"
      "0 \<le> bind_r env" "0 \<le> listen_r env" "0 \<le> accept_r env"
    and ex: "snd (server_main argv env) = Some 0"
  shows "Stdout (''Total messages: ''
           @ show_int (message_count (fst (echo_loop (accept_r env)
                 (deliver (sig_startup env) (server_init env)) (iters env)))) @ NL)
           \<in> set (fst (server_main argv env))"
proof -
  let ?s0 = "deliver (sig_startup env) (server_init env)"
  obtain s x where lp: "echo_loop (accept_r env) ?s0 (iters env) = (s, x)"
    by (cases "echo_loop (accept_r env) ?s0 (iters env)")
  note m = server_main_started [OF ok lp]
  from ex m(4) have "x \<noteq> BlockedInRecv" by (simp split: if_splits)
  with m(5) lp show ?thesis by simp
qed

lemma client_main_total:
  assumes "int (length argv) = 3" "host_found env" "0 \<le> socket_rc env" "0 \<le> connect_r env"
    and "snd (client_main argv env) = Some 0"
  shows "Stdout (''Messages sent: ''
           @ show_int (i_c (fst (client_loop (socket_rc env) (client_init env) (exchanges env))) - 1)
           @ NL) \<in> set (fst (client_main argv env))"
proof -
  obtain s x where lp: "client_loop (socket_rc env) (client_init env) (exchanges env) = (s, x)"
    by (cases "client_loop (socket_rc env) (client_init env) (exchanges env)")
  note m = client_main_started [OF assms(1-4) lp]
  from assms(5) m(4) have "x \<noteq> Stalled" by (simp split: if_splits)
  with m(5) lp show ?thesis by simp
qed

text \<open>
  C6 (as amended). The server's \<open>message_count\<close> is incremented exactly once for each
  read that returns a positive length, before the echo is attempted: the chunk is
  counted also when its \<open>send\<close> fails. Nothing else changes it (not the handler, not a
  read that returns 0 or fails), so it never decreases and always equals the number of
  chunks read. The new value numbers the "Received" line of the chunk, and the
  "Echoed back" line that follows when \<open>send\<close> did not fail; a read that returns 0 or
  fails prints no numbered line. The summary prints the final value. In the client the
  tally is the loop index \<open>i\<close>: it numbers the "Sending", "Sent" and "Received echo"
  lines of its exchange, the body leaves it unchanged, the loop increments it exactly
  once after each exchange in which neither \<open>send\<close> nor \<open>recv\<close> returned a negative
  value and not after one that broke the loop, and the summary prints \<open>i - 1\<close>, the
  number of such exchanges.
\<close>

theorem message_counter_tally:
  "message_count (fst (server_iter cfd s e)) =
     (if 0 < recv_rv (recv_out e) then message_count s + 1 else message_count s)
   \<and> (0 < recv_rv (recv_out e) \<and> send_r e < 0 \<longrightarrow>
        snd (server_iter cfd s e) = Some SendFailed
      \<and> message_count (fst (server_iter cfd s e)) = message_count s + 1)
   \<and> (0 < recv_rv (recv_out e) \<longrightarrow>
        out (fst (server_iter cfd s e)) =
          out s @ map sig_line (sig_in_recv e) @
          [CallRecv cfd (BUFFER_SIZE - 1) (recv_rv (recv_out e)) (recv_data (recv_out e)),
           Stdout (''[MSG '' @ show_int (message_count s + 1) @ ''] Received ''
                   @ show_int (recv_rv (recv_out e)) @ '' bytes: ''
                   @ c_string (store (recv_data (recv_out e)) (memset_zero BUFFER_SIZE)) @ NL),
           CallSend cfd (recv_data (recv_out e)) (send_r e)] @
          (if send_r e < 0 then [Perror ''ERROR: Send failed'']
           else Stdout (''[MSG '' @ show_int (message_count s + 1)
                        @ ''] Echoed back to client'' @ NL)
                # map sig_line (sig_after e)))
   \<and> (recv_rv (recv_out e) \<le> 0 \<longrightarrow>
        out (fst (server_iter cfd s e)) =
          out s @ map sig_line (sig_in_recv e) @
          [CallRecv cfd (BUFFER_SIZE - 1) (recv_rv (recv_out e)) (recv_data (recv_out e)),
           if recv_rv (recv_out e) = 0 then Stdout (''Client disconnected'' @ NL)
           else Perror ''ERROR: Receive failed''])
   \<and> message_count (signal_handler signum s) = message_count s
   \<and> message_count s \<le> message_count (fst (echo_loop cfd s es))
   \<and> (message_count s = int (length (chunks_read (out s))) \<longrightarrow>
        message_count (fst (echo_loop cfd s es)) =
          int (length (chunks_read (out (fst (echo_loop cfd s es))))))
   \<and> (int (length argv) = 2 \<and> 0 \<le> socket_r env \<and> 0 \<le> setsockopt_r env \<and> 0 \<le> bind_r env
        \<and> 0 \<le> listen_r env \<and> 0 \<le> accept_r env \<and> snd (server_main argv env) = Some 0 \<longrightarrow>
          Stdout (''Total messages: ''
                  @ show_int (message_count (fst (echo_loop (accept_r env)
                        (deliver (sig_startup env) (server_init env)) (iters env)))) @ NL)
            \<in> set (fst (server_main argv env))
        \<and> Stdout (''Total messages: ''
                  @ show_int (int (length (chunks_read (fst (server_main argv env))))) @ NL)
            \<in> set (fst (server_main argv env)))
   \<and> i_c (fst (client_iter fd c x)) = i_c c
   \<and> out_c (fst (client_iter fd c x)) =
       out_c c @
       [Stdout (''[MSG '' @ show_int (i_c c) @ ''] Sending: '' @ make_message (i_c c) @ NL),
        CallSend fd (make_message (i_c c)) (x_send_r x)] @
       (if x_send_r x < 0 then [Perror ''ERROR: Send failed'']
        else
          [Stdout (''[MSG '' @ show_int (i_c c) @ ''] Sent '' @ show_int (x_send_r x)
                   @ '' bytes'' @ NL),
           CallRecv fd (BUFFER_SIZE - 1) (recv_rv (x_recv x)) (recv_data (x_recv x))] @
          (if recv_rv (x_recv x) < 0 then [Perror ''ERROR: Receive failed'']
           else
             [Stdout (''[MSG '' @ show_int (i_c c) @ ''] Received echo: ''
                      @ c_string (store (recv_data (x_recv x)) (memset_zero BUFFER_SIZE))
                      @ '' ('' @ show_int (recv_rv (x_recv x)) @ '' bytes)'' @ NL),
              CallSleep 1]))
   \<and> (i_c c \<le> NUM_MESSAGES \<longrightarrow>
        client_loop fd c (x # xs) =
          (if completed x
           then client_loop fd ((fst (client_iter fd c x))\<lparr>i_c := i_c c + 1\<rparr>) xs
           else (fst (client_iter fd c x), if x_send_r x < 0 then SendAbort else RecvAbort)))
   \<and> i_c (fst (client_loop fd c xs)) =
       i_c c + int (length (takeWhile completed (take (remaining c) xs)))
   \<and> (int (length argv') = 3 \<and> host_found cenv \<and> 0 \<le> socket_rc cenv \<and> 0 \<le> connect_r cenv
        \<and> snd (client_main argv' cenv) = Some 0 \<longrightarrow>
          Stdout (''Messages sent: ''
                  @ show_int (i_c (fst (client_loop (socket_rc cenv) (client_init cenv)
                                         (exchanges cenv))) - 1) @ NL)
            \<in> set (fst (client_main argv' cenv))
        \<and> Stdout (''Messages sent: ''
                  @ show_int (int (length (takeWhile completed (take 5 (exchanges cenv))))) @ NL)
            \<in> set (fst (client_main argv' cenv)))"
proof -
  have fail: "snd (server_iter cfd s e) = Some SendFailed"
    if "0 < recv_rv (recv_out e)" "send_r e < 0"
    using that by (simp add: server_iter_exit)
  have mc: "message_count (fst (server_iter cfd s e)) =
     (if 0 < recv_rv (recv_out e) then message_count s + 1 else message_count s)"
    by (rule server_iter_fields)
  have ic: "i_c (fst (client_iter fd c x)) = i_c c"
    by (rule client_iter_fields)
  have step: "client_loop fd c (x # xs) =
          (if completed x
           then client_loop fd ((fst (client_iter fd c x))\<lparr>i_c := i_c c + 1\<rparr>) xs
           else (fst (client_iter fd c x), if x_send_r x < 0 then SendAbort else RecvAbort))"
    if "i_c c \<le> NUM_MESSAGES"
    using that by (rule client_loop_step)
  have srv: "Stdout (''Total messages: ''
                  @ show_int (message_count (fst (echo_loop (accept_r env)
                        (deliver (sig_startup env) (server_init env)) (iters env)))) @ NL)
            \<in> set (fst (server_main argv env))
        \<and> Stdout (''Total messages: ''
                  @ show_int (int (length (chunks_read (fst (server_main argv env))))) @ NL)
            \<in> set (fst (server_main argv env))"
    if "int (length argv) = 2 \<and> 0 \<le> socket_r env \<and> 0 \<le> setsockopt_r env \<and> 0 \<le> bind_r env
        \<and> 0 \<le> listen_r env \<and> 0 \<le> accept_r env \<and> snd (server_main argv env) = Some 0"
    using that server_main_total [of argv env] server_shutdown_clean(3) [of argv env]
    by simp
  have cli: "Stdout (''Messages sent: ''
                  @ show_int (i_c (fst (client_loop (socket_rc cenv) (client_init cenv)
                                         (exchanges cenv))) - 1) @ NL)
            \<in> set (fst (client_main argv' cenv))
        \<and> Stdout (''Messages sent: ''
                  @ show_int (int (length (takeWhile completed (take 5 (exchanges cenv))))) @ NL)
            \<in> set (fst (client_main argv' cenv))"
    if "int (length argv') = 3 \<and> host_found cenv \<and> 0 \<le> socket_rc cenv \<and> 0 \<le> connect_r cenv
        \<and> snd (client_main argv' cenv) = Some 0"
    using that client_main_total [of argv' cenv] client_summary [of argv' cenv]
    by simp
  show ?thesis
    apply (intro conjI impI)
    subgoal by (rule mc)
    subgoal using fail by simp
    subgoal using mc by simp
    subgoal by (rule server_iter_out_pos)
    subgoal by (rule server_iter_out_nonpos)
    subgoal by simp
    subgoal by (rule echo_loop_mono)
    subgoal by (rule echo_loop_count)
    subgoal using srv by simp
    subgoal using srv by simp
    subgoal by (rule ic)
    subgoal by (rule client_iter_out)
    subgoal using step by simp
    subgoal by (rule client_loop_i)
    subgoal using cli by simp
    subgoal using cli by simp
    done
qed

theorem message_counter_tally_witness:
  "out (fst (server_iter 4 (server_init (quiet_start [])) (feed ''hi''))) =
     [CallRecv 4 1023 2 ''hi'', Stdout (''[MSG 1] Received 2 bytes: hi'' @ NL),
      CallSend 4 ''hi'' 2, Stdout (''[MSG 1] Echoed back to client'' @ NL)]
   \<and> message_count (fst (server_iter 4 (server_init (quiet_start [])) (feed ''hi''))) = 1
   \<and> out (fst (server_iter 4 (server_init (quiet_start [])) ((feed ''hi'')\<lparr>send_r := - 1\<rparr>))) =
     [CallRecv 4 1023 2 ''hi'', Stdout (''[MSG 1] Received 2 bytes: hi'' @ NL),
      CallSend 4 ''hi'' (- 1), Perror ''ERROR: Send failed'']
   \<and> message_count (fst (server_iter 4 (server_init (quiet_start []))
        ((feed ''hi'')\<lparr>send_r := - 1\<rparr>))) = 1
   \<and> out (fst (server_iter 4 (server_init (quiet_start [])) hangup)) =
     [CallRecv 4 1023 0 [], Stdout (''Client disconnected'' @ NL)]
   \<and> message_count (fst (server_iter 4 (server_init (quiet_start [])) hangup)) = 0
   \<and> Stdout (''Total messages: 1'' @ NL)
        \<in> set (fst (server_main [''server'', ''8080''] (quiet_start [feed ''hi'', hangup])))
   \<and> out_c (fst (client_iter 3 (client_init (connected []))
        (exchange_ok ''Message 1 from client'' ''Message 1 from client''))) =
     [Stdout (''[MSG 1] Sending: Message 1 from client'' @ NL),
      CallSend 3 ''Message 1 from client'' 21,
      Stdout (''[MSG 1] Sent 21 bytes'' @ NL),
      CallRecv 3 1023 21 ''Message 1 from client'',
      Stdout (''[MSG 1] Received echo: Message 1 from client (21 bytes)'' @ NL),
      CallSleep 1]
   \<and> Stdout (''Messages sent: 5'' @ NL)
        \<in> set (fst (client_main [''client'', ''localhost'', ''8080'']
                    (connected (map (\<lambda>m. exchange_ok m m) five_messages))))"
proof -
  let ?s0 = "server_init (quiet_start [])"
  let ?c0 = "client_init (connected [])"
  let ?env = "quiet_start [feed ''hi'', hangup]"
  let ?cenv = "connected (map (\<lambda>m. exchange_ok m m) five_messages)"
  let ?x = "exchange_ok ''Message 1 from client'' ''Message 1 from client''"
  have pc: "snd (server_main [''server'', ''8080''] ?env) = Some 0"
    "recvs_of (fst (server_main [''server'', ''8080''] ?env)) = [(2, ''hi''), (0, [])]"
    using peer_close_count(1,2) [of "[''server'', ''8080'']" ?env "[feed ''hi'']" hangup "[]"]
    by (simp_all add: echoed_def)
  have ch: "chunks_read (fst (server_main [''server'', ''8080''] ?env)) = [''hi'']"
    by (simp add: chunks_read_def pc(2))
  have tw: "takeWhile completed (map (\<lambda>m. exchange_ok m m) five_messages) =
      map (\<lambda>m. exchange_ok m m) five_messages"
    by (simp add: five_messages_def exchange_ok_def completed_def recv_rv_cases)
  have len: "length five_messages = 5" by (simp add: five_messages_def)
  have "snd (client_loop (socket_rc ?cenv) (client_init ?cenv) (exchanges ?cenv)) = AllDone"
    by (simp add: client_loop_exit remaining_init connected_def tw len Let_def
          del: client_loop.simps)
  then have cl: "snd (client_main [''client'', ''localhost'', ''8080''] ?cenv) = Some 0"
    using client_main_started(4) [of "[''client'', ''localhost'', ''8080'']" ?cenv
        "fst (client_loop (socket_rc ?cenv) (client_init ?cenv) (exchanges ?cenv))" AllDone]
    by (simp add: connected_def prod_eq_iff)
  have ex: "exchanges ?cenv = map (\<lambda>m. exchange_ok m m) five_messages"
    by (simp add: connected_def)
  have cs: "c_string (store ''hi'' (memset_zero BUFFER_SIZE)) = ''hi''"
    "c_string (store ''Message 1 from client'' (memset_zero BUFFER_SIZE)) = ''Message 1 from client''"
    by (simp_all add: c_string_def store_def memset_zero_def BUFFER_SIZE_def NUL_def)
  have mm: "make_message 1 = ''Message 1 from client''"
    by (simp add: make_message_def show_int_def show_nat.simps BUFFER_SIZE_def)
  have si: "show_int 1 = ''1''" "show_int 2 = ''2''" "show_int 5 = ''5''" "show_int 21 = ''21''"
    by (simp_all add: show_int_def show_nat.simps)
  have bs: "BUFFER_SIZE - 1 = 1023" by (simp add: BUFFER_SIZE_def)
  have xf: "x_send_r ?x = 21" "recv_rv (x_recv ?x) = 21"
    "recv_data (x_recv ?x) = ''Message 1 from client''"
    by (simp_all add: exchange_ok_def)
  note t = message_counter_tally [where cfd = 4 and s = ?s0 and signum = 15 and es = "[]"
      and argv = "[''server'', ''8080'']" and env = ?env and fd = 3 and c = ?c0 and x = ?x
      and xs = "[]" and argv' = "[''client'', ''localhost'', ''8080'']" and cenv = ?cenv]
  show ?thesis
    using pc(1) cl t [where e = "feed ''hi''"] t [where e = "(feed ''hi'')\<lparr>send_r := - 1\<rparr>"]
      t [where e = hangup]
    by (simp add: ch ex tw len cs mm si bs xf recv_data_nonpos connected_def
          del: client_loop.simps echo_loop.simps)
qed

theorem message_counter_counterexample:
  "Stdout (''Total messages: 1'' @ NL)
     \<in> set (fst (server_main [''server'', ''8080''] (quiet_start [(feed ''hi'')\<lparr>send_r := - 1\<rparr>])))
   \<and> send_rets_of (fst (server_main [''server'', ''8080'']
        (quiet_start [(feed ''hi'')\<lparr>send_r := - 1\<rparr>]))) = [- 1]
   \<and> Stdout (''[MSG 1] Received 2 bytes: hi'' @ NL)
     \<in> set (fst (server_main [''server'', ''8080''] (quiet_start [(feed ''hi'')\<lparr>send_r := - 1\<rparr>])))"
  by (simp add: server_main_ok echo_loop_leaves server_cleanup_def server_iter_def recv_call_eq
        Let_def show_int_def show_nat.simps c_string_def store_def memset_zero_def
        BUFFER_SIZE_def NUL_def del: echo_loop.simps)

subsection \<open>A zero-length reply\<close>

lemma client_iter_zero_read:
  assumes "0 \<le> x_send_r e" "recv_rv (x_recv e) = 0"
  shows "out_c (fst (client_iter fd s e)) =
     out_c s @
     [Stdout (''[MSG '' @ show_int (i_c s) @ ''] Sending: '' @ make_message (i_c s) @ NL),
      CallSend fd (make_message (i_c s)) (x_send_r e),
      Stdout (''[MSG '' @ show_int (i_c s) @ ''] Sent '' @ show_int (x_send_r e) @ '' bytes'' @ NL),
      CallRecv fd (BUFFER_SIZE - 1) 0 [],
      Stdout (''[MSG '' @ show_int (i_c s) @ ''] Received echo:  (0 bytes)'' @ NL),
      CallSleep 1]"
proof -
  have d: "recv_data (x_recv e) = []"
    using assms(2) by (simp add: recv_data_nonpos)
  have c: "c_string (store [] (memset_zero BUFFER_SIZE)) = []"
    by (simp add: c_string_def store_def memset_zero_def BUFFER_SIZE_def)
  have z: "show_int 0 = ''0''"
    by (simp add: show_int_def show_nat.simps)
  show ?thesis
    using assms by (simp add: client_iter_def recv_call_eq Let_def d c z)
qed

lemma closed_peer_run:
  assumes ok: "int (length argv) = 3" "host_found env" "0 \<le> socket_rc env" "0 \<le> connect_r env"
    and len: "5 \<le> length (exchanges env)"
    and all: "\<forall>x\<in>set (take 5 (exchanges env)). 0 \<le> x_send_r x \<and> recv_rv (x_recv x) = 0"
  shows "sends_of (fst (client_main argv env)) = five_messages"
    and "map fst (recvs_of (fst (client_main argv env))) = [0, 0, 0, 0, 0]"
    and "Stdout (''Messages sent: 5'' @ NL) \<in> set (fst (client_main argv env))"
    and "snd (client_main argv env) = Some 0"
proof -
  let ?es = "exchanges env"
  obtain s x where lp: "client_loop (socket_rc env) (client_init env) ?es = (s, x)"
    by (cases "client_loop (socket_rc env) (client_init env) ?es")
  note m = client_main_started [OF ok lp]
  have s: "s = fst (client_loop (socket_rc env) (client_init env) ?es)"
    and x: "x = snd (client_loop (socket_rc env) (client_init env) ?es)"
    using lp by simp_all
  have comp: "\<forall>x\<in>set (take 5 ?es). completed x"
    using all by (simp add: completed_def)
  then have tw: "takeWhile completed (take 5 ?es) = take 5 ?es" by simp
  have "\<forall>x\<in>set (take 5 ?es). 0 \<le> x_send_r x" using all by simp
  then have tw2: "takeWhile (\<lambda>e. 0 \<le> x_send_r e) (take 5 ?es) = take 5 ?es" by simp
  have l5: "length (take 5 ?es) = 5" using len by simp
  have "sends_of (out_c s) = map (\<lambda>j. make_message (1 + int j)) [0..<5]"
    unfolding s using len by (simp add: client_loop_sends remaining_init tw del: upt_Suc)
  then show "sends_of (fst (client_main argv env)) = five_messages"
    by (simp only: m(1) make_message_five)
  have "map fst (recvs_of (out_c s)) = map (\<lambda>e. recv_rv (x_recv e)) (take 5 ?es)"
    unfolding s using len by (simp add: client_loop_recvs remaining_init tw tw2 comp_def)
  also have "\<dots> = map (\<lambda>e. 0) (take 5 ?es)"
    using all by (intro map_cong) simp_all
  also have "\<dots> = replicate 5 0"
    using l5 by (simp add: map_replicate_const)
  finally show "map fst (recvs_of (fst (client_main argv env))) = [0, 0, 0, 0, 0]"
    by (simp add: m(2) numeral_eq_Suc)
  have xd: "x \<noteq> Stalled"
    unfolding x using len l5 by (simp add: client_loop_exit remaining_init tw Let_def)
  have "i_c s - 1 = 5"
    unfolding s using l5 by (simp add: client_loop_i remaining_init tw)
  then show "Stdout (''Messages sent: 5'' @ NL) \<in> set (fst (client_main argv env))"
    using m(5) xd by (simp add: show_int_def show_nat.simps)
  show "snd (client_main argv env) = Some 0"
    using m(4) xd by simp
qed

text \<open>
  C10. In the client only a negative return of \<open>recv\<close> breaks the loop. When \<open>send\<close> did
  not fail and \<open>recv\<close> returns 0 the body runs to its end: it prints an empty echo with
  "(0 bytes)", sleeps, and the loop goes on with the next index, so the exchange is
  counted. Against a peer that is closed throughout, all five messages are still sent
  and the summary reports 5.
\<close>

theorem client_zero_read_continues:
  "(0 \<le> x_send_r e \<and> recv_rv (x_recv e) = 0 \<longrightarrow>
      snd (client_iter fd s e) = None
    \<and> completed e
    \<and> out_c (fst (client_iter fd s e)) =
        out_c s @
        [Stdout (''[MSG '' @ show_int (i_c s) @ ''] Sending: '' @ make_message (i_c s) @ NL),
         CallSend fd (make_message (i_c s)) (x_send_r e),
         Stdout (''[MSG '' @ show_int (i_c s) @ ''] Sent '' @ show_int (x_send_r e) @ '' bytes'' @ NL),
         CallRecv fd (BUFFER_SIZE - 1) 0 [],
         Stdout (''[MSG '' @ show_int (i_c s) @ ''] Received echo:  (0 bytes)'' @ NL),
         CallSleep 1]
    \<and> (i_c s \<le> NUM_MESSAGES \<longrightarrow>
         client_loop fd s (e # es) =
           client_loop fd ((fst (client_iter fd s e))\<lparr>i_c := i_c s + 1\<rparr>) es))
   \<and> (recv_rv (x_recv e) < 0 \<and> 0 \<le> x_send_r e \<longrightarrow> snd (client_iter fd s e) = Some RecvAbort)
   \<and> (int (length argv) = 3 \<and> host_found env \<and> 0 \<le> socket_rc env \<and> 0 \<le> connect_r env
        \<and> 5 \<le> length (exchanges env)
        \<and> (\<forall>x\<in>set (take 5 (exchanges env)). 0 \<le> x_send_r x \<and> recv_rv (x_recv x) = 0) \<longrightarrow>
          sends_of (fst (client_main argv env)) = five_messages
        \<and> map fst (recvs_of (fst (client_main argv env))) = [0, 0, 0, 0, 0]
        \<and> Stdout (''Messages sent: 5'' @ NL) \<in> set (fst (client_main argv env))
        \<and> snd (client_main argv env) = Some 0)"
proof -
  have A: "completed e" if "0 \<le> x_send_r e" "recv_rv (x_recv e) = 0"
    using that by (simp add: completed_def)
  have B: "client_loop fd s (e # es) =
           client_loop fd ((fst (client_iter fd s e))\<lparr>i_c := i_c s + 1\<rparr>) es"
    if "0 \<le> x_send_r e" "recv_rv (x_recv e) = 0" "i_c s \<le> NUM_MESSAGES"
    using client_loop_step [OF that(3), of fd e es] A [OF that(1,2)] by simp
  show ?thesis
    using A B client_iter_zero_read [of e fd s] closed_peer_run [of argv env]
    by (simp add: client_iter_exit)
qed

theorem client_zero_read_continues_witness:
  "snd (client_iter 3 (client_init (connected [])) \<lparr>x_send_r = 21, x_recv = RecvClosed\<rparr>) = None
   \<and> sends_of (fst (client_main [''client'', ''localhost'', ''8080'']
        (connected (replicate 5 \<lparr>x_send_r = 21, x_recv = RecvClosed\<rparr>)))) = five_messages
   \<and> Stdout (''Messages sent: 5'' @ NL)
        \<in> set (fst (client_main [''client'', ''localhost'', ''8080'']
             (connected (replicate 5 \<lparr>x_send_r = 21, x_recv = RecvClosed\<rparr>))))
   \<and> snd (client_main [''client'', ''localhost'', ''8080'']
             (connected (replicate 5 \<lparr>x_send_r = 21, x_recv = RecvClosed\<rparr>))) = Some 0
   \<and> snd (client_iter 3 (client_init (connected [])) \<lparr>x_send_r = 21, x_recv = RecvError\<rparr>)
       = Some RecvAbort"
  using client_zero_read_continues [where e = "\<lparr>x_send_r = 21, x_recv = RecvClosed\<rparr>" and fd = 3
      and s = "client_init (connected [])" and argv = "[''client'', ''localhost'', ''8080'']"
      and env = "connected (replicate 5 \<lparr>x_send_r = 21, x_recv = RecvClosed\<rparr>)"]
    client_zero_read_continues [where e = "\<lparr>x_send_r = 21, x_recv = RecvError\<rparr>" and fd = 3
      and s = "client_init (connected [])" and argv = "[''client'', ''localhost'', ''8080'']"
      and env = "connected (replicate 5 \<lparr>x_send_r = 21, x_recv = RecvClosed\<rparr>)"]
  by (simp add: connected_def recv_rv_cases recv_data_def)

end
